theory Spec2Isabelle
  imports Complex_Main "HOL-Library.AList"
begin

section \<open>Python values, exceptions and the operations the scraper uses\<close>

text \<open>
  A parsed JSON document as Python holds it after \<^verbatim>\<open>response.json()\<close>: \<^verbatim>\<open>None\<close>, a
  bool, an int, a float (its value as a rational), a str, a list, or a dict. A dict is an
  association list in insertion order; lookups read it as a map.
\<close>

datatype json =
    JNull
  | JBool bool
  | JInt int
  | JFloat rat
  | JStr string
  | JArr "json list"
  | JObj "(string \<times> json) list"

text \<open>
  The exception classes that occur. \<open>RequestsJSONDecodeError\<close> is
  \<^verbatim>\<open>requests.exceptions.JSONDecodeError\<close>, a subclass of both
  \<^verbatim>\<open>requests.exceptions.RequestException\<close> and \<^verbatim>\<open>json.JSONDecodeError\<close>;
  \<open>TimeoutError\<close> is what \<^verbatim>\<open>future.result(timeout=...)\<close> raises.
\<close>

datatype exn =
    RequestException
  | RequestsJSONDecodeError
  | JSONDecodeError
  | KeyError
  | TypeError
  | UnboundLocalError
  | IndexError
  | ZeroDivisionError
  | TimeoutError

fun is_RequestException :: "exn \<Rightarrow> bool" where
  "is_RequestException RequestException = True"
| "is_RequestException RequestsJSONDecodeError = True"
| "is_RequestException _ = False"

fun is_JSONDecodeError :: "exn \<Rightarrow> bool" where
  "is_JSONDecodeError RequestsJSONDecodeError = True"
| "is_JSONDecodeError JSONDecodeError = True"
| "is_JSONDecodeError _ = False"

text \<open>Sequencing of statements that may raise: the first exception ends the block.\<close>

fun and_then :: "exn + 'a \<Rightarrow> ('a \<Rightarrow> exn + 'b) \<Rightarrow> exn + 'b" where
  "and_then (Inl e) f = Inl e"
| "and_then (Inr x) f = f x"

text \<open>\<^verbatim>\<open>v[k]\<close> with a str key: only a dict can be subscripted by a str.\<close>

fun py_getitem :: "json \<Rightarrow> string \<Rightarrow> exn + json" where
  "py_getitem (JObj kvs) k = (case map_of kvs k of None \<Rightarrow> Inl KeyError | Some v \<Rightarrow> Inr v)"
| "py_getitem _ k = Inl TypeError"

text \<open>\<^verbatim>\<open>v[k1][k2]...\<close>, left to right.\<close>

fun py_path :: "json \<Rightarrow> string list \<Rightarrow> exn + json" where
  "py_path v [] = Inr v"
| "py_path v (k # ks) = and_then (py_getitem v k) (\<lambda>v'. py_path v' ks)"

text \<open>\<^verbatim>\<open>v[k] = x\<close>: an existing key keeps its position, a new key goes last.\<close>

fun py_setitem :: "json \<Rightarrow> string \<Rightarrow> json \<Rightarrow> exn + json" where
  "py_setitem (JObj kvs) k x = Inr (JObj (AList.update k x kvs))"
| "py_setitem _ k x = Inl TypeError"

text \<open>\<^verbatim>\<open>del v[k]\<close>.\<close>

fun py_delitem :: "json \<Rightarrow> string \<Rightarrow> exn + json" where
  "py_delitem (JObj kvs) k =
     (case map_of kvs k of None \<Rightarrow> Inl KeyError | Some _ \<Rightarrow> Inr (JObj (AList.delete k kvs)))"
| "py_delitem _ k = Inl TypeError"

text \<open>\<^verbatim>\<open>a in b\<close> on two strs: \<open>a\<close> occurs in \<open>b\<close> as a contiguous substring.\<close>

fun startswith :: "string \<Rightarrow> string \<Rightarrow> bool" where
  "startswith [] s = True"
| "startswith (c # cs) [] = False"
| "startswith (c # cs) (d # ds) = (c = d \<and> startswith cs ds)"

fun py_in :: "string \<Rightarrow> string \<Rightarrow> bool" where
  "py_in a [] = (a = [])"
| "py_in a (c # cs) = (startswith a (c # cs) \<or> py_in a cs)"

text \<open>\<^verbatim>\<open>k in v\<close> with a str \<open>k\<close>.\<close>

fun py_contains :: "string \<Rightarrow> json \<Rightarrow> exn + bool" where
  "py_contains k (JObj kvs) = Inr (map_of kvs k \<noteq> None)"
| "py_contains k (JArr xs) = Inr (JStr k \<in> set xs)"
| "py_contains k (JStr s) = Inr (py_in k s)"
| "py_contains k _ = Inl TypeError"

text \<open>\<^verbatim>\<open>for x in v\<close>: a list yields its elements, a dict its keys, a str its characters.\<close>

fun py_iter :: "json \<Rightarrow> exn + json list" where
  "py_iter (JArr xs) = Inr xs"
| "py_iter (JObj kvs) = Inr (map (\<lambda>kv. JStr (fst kv)) kvs)"
| "py_iter (JStr s) = Inr (map (\<lambda>c. JStr [c]) s)"
| "py_iter _ = Inl TypeError"

text \<open>Truth value of a Python object, as \<^verbatim>\<open>while v:\<close> and \<^verbatim>\<open>if v:\<close> test it.\<close>

fun truthy :: "json \<Rightarrow> bool" where
  "truthy JNull = False"
| "truthy (JBool b) = b"
| "truthy (JInt i) = (i \<noteq> 0)"
| "truthy (JFloat r) = (r \<noteq> 0)"
| "truthy (JStr s) = (s \<noteq> [])"
| "truthy (JArr xs) = (xs \<noteq> [])"
| "truthy (JObj kvs) = (kvs \<noteq> [])"

section \<open>The remote service as the scraper sees it\<close>

text \<open>
  One round trip \<^verbatim>\<open>session.post(...)\<close> followed by \<^verbatim>\<open>response.json()\<close>: the post
  raises, or the body does not parse and \<^verbatim>\<open>json()\<close> raises, or a document comes back.
  A run of a paginator consumes a sequence of such round trips, one per request, in
  order. The sequence is finite: a run that still asks for a page when it is used up has
  no result (\<open>None\<close>).
\<close>

datatype response =
    PostRaises exn
  | JsonRaises exn
  | Json json

text \<open>
  The \<^verbatim>\<open>variables\<close> payload of a request, as far as it changes from request to request.
  The remaining entries (the query text, the resource reference, the filters) are the same
  in every request of a run.
\<close>

record variables =
  count :: int
  cursor :: json

section \<open>\<^verbatim>\<open>school_valid\<close>\<close>

definition not_found_marker :: string where
  "not_found_marker = ''We couldn&#x27;t find the school you were looking for''"

definition no_ratings_marker :: string where
  "no_ratings_marker = ''have any ratings yet''"

text \<open>
  The argument is the outcome of \<^verbatim>\<open>requests.get(.../school/{school_number})\<close>: the
  exception it raised, or \<^verbatim>\<open>resp.text\<close>.
\<close>

fun school_valid :: "exn + string \<Rightarrow> exn + bool" where
  "school_valid (Inl e) = Inl e"
| "school_valid (Inr text) =
     (let error_message = py_in not_found_marker text;
          no_ratings = py_in no_ratings_marker text
      in Inr (\<not> (error_message \<or> no_ratings)))"

section \<open>\<^verbatim>\<open>get_profs\<close>\<close>

text \<open>
  The body of \<^verbatim>\<open>for edge in edges\<close> for one edge: \<open>None\<close> is \<^verbatim>\<open>continue\<close>,
  \<open>Some node\<close> is the node handed to \<^verbatim>\<open>results.append\<close>.
\<close>

definition get_profs_edge :: "json \<Rightarrow> exn + json option" where
  "get_profs_edge edge =
     and_then (py_getitem edge ''node'') (\<lambda>node.
     and_then (py_getitem node ''__typename'') (\<lambda>typename.
     if \<not> typename = JStr ''Teacher'' then Inr None
     else
       and_then (py_path node [''school'', ''id'']) (\<lambda>school_id.
       and_then (py_setitem node ''schoolId'' school_id) (\<lambda>node.
       and_then (py_path node [''school'', ''name'']) (\<lambda>school_name.
       and_then (py_setitem node ''schoolName'' school_name) (\<lambda>node.
       and_then (py_delitem node ''school'') (\<lambda>node.
       Inr (Some node))))))))"

fun get_profs_edges :: "json list \<Rightarrow> json list \<Rightarrow> exn + json list" where
  "get_profs_edges [] results = Inr results"
| "get_profs_edges (edge # edges) results =
     (case get_profs_edge edge of
        Inl e \<Rightarrow> Inl e
      | Inr None \<Rightarrow> get_profs_edges edges results
      | Inr (Some node) \<Rightarrow> get_profs_edges edges (results @ [node]))"

text \<open>
  The three \<^verbatim>\<open>except\<close> clauses after the \<^verbatim>\<open>try\<close>, in their order. \<open>j\<close> is the
  variable \<^verbatim>\<open>j\<close> at that moment: unbound (\<open>None\<close>) until a first \<^verbatim>\<open>response.json()\<close>
  has returned. The first clause evaluates \<^verbatim>\<open>j["errors"]\<close> before it returns and the
  third passes \<^verbatim>\<open>j\<close> to \<^verbatim>\<open>print\<close>: with \<^verbatim>\<open>j\<close> unbound both raise
  \<^verbatim>\<open>UnboundLocalError\<close>. The second clause does not read \<^verbatim>\<open>j\<close>. An exception raised
  in a clause, or one that no clause matches, leaves \<^verbatim>\<open>get_profs\<close>.
\<close>

definition get_profs_except :: "exn \<Rightarrow> json option \<Rightarrow> json list \<Rightarrow> exn + json list" where
  "get_profs_except e j results =
     (if is_RequestException e then
        (case j of
           None \<Rightarrow> Inl UnboundLocalError
         | Some jv \<Rightarrow> and_then (py_getitem jv ''errors'') (\<lambda>_. Inr results))
      else if is_JSONDecodeError e then Inr results
      else if e = KeyError then
        (case j of
           None \<Rightarrow> Inl UnboundLocalError
         | Some jv \<Rightarrow> Inr results)
      else Inl e)"

text \<open>
  The \<^verbatim>\<open>while has_more\<close> loop. The result is what \<^verbatim>\<open>get_profs\<close> returns or raises,
  together with the payloads of the requests sent.
\<close>

fun get_profs_loop ::
  "int \<Rightarrow> int option \<Rightarrow> response list \<Rightarrow> json \<Rightarrow> json list \<Rightarrow> int \<Rightarrow> json option \<Rightarrow>
   variables list \<Rightarrow> ((exn + json list) \<times> variables list) option" where
  "get_profs_loop page_size pages [] cur_cursor results pages_so_far j sent = None"
| "get_profs_loop page_size pages (response # rest) cur_cursor results pages_so_far j sent =
     (let sent = sent @ [\<lparr>count = page_size, cursor = cur_cursor\<rparr>] in
      case response of
        PostRaises e \<Rightarrow> Some (Inl e, sent)
      | JsonRaises e \<Rightarrow> Some (get_profs_except e j results, sent)
      | Json j \<Rightarrow>
          (case and_then (py_path j [''data'', ''search'', ''teachers'', ''pageInfo''])
                  (\<lambda>page_info.
                and_then (py_path j [''data'', ''search'', ''teachers'', ''edges''])
                  (\<lambda>edges. Inr (page_info, edges))) of
             Inl e \<Rightarrow> Some (get_profs_except e (Some j) results, sent)
           | Inr (page_info, edges) \<Rightarrow>
               (case and_then (py_iter edges) (\<lambda>edges. get_profs_edges edges results) of
                  Inl e \<Rightarrow> Some (Inl e, sent)
                | Inr results \<Rightarrow>
                    (case py_getitem page_info ''hasNextPage'' of
                       Inl e \<Rightarrow> Some (Inl e, sent)
                     | Inr has_more \<Rightarrow>
                         (case py_getitem page_info ''endCursor'' of
                            Inl e \<Rightarrow> Some (Inl e, sent)
                          | Inr cur_cursor \<Rightarrow>
                              (let pages_so_far = pages_so_far + 1 in
                               if pages \<noteq> None \<and> pages_so_far \<ge> the pages
                               then Some (Inr results, sent)
                               else if truthy has_more
                               then get_profs_loop page_size pages rest cur_cursor results
                                      pages_so_far (Some j) sent
                               else Some (Inr results, sent)))))))"

text \<open>
  \<open>probe\<close> is the outcome of the GET that \<^verbatim>\<open>school_valid\<close> issues for the school,
  \<open>responses\<close> the round trips of the GraphQL endpoint for it. The school number
  itself goes into the URL of the probe and into the \<^verbatim>\<open>schoolID\<close> of every payload and
  nowhere else, so it is not an argument here.
\<close>

definition get_profs ::
  "exn + string \<Rightarrow> response list \<Rightarrow> int \<Rightarrow> int option \<Rightarrow>
   ((exn + json list) \<times> variables list) option" where
  "get_profs probe responses page_size pages =
     (case school_valid probe of
        Inl e \<Rightarrow> Some (Inl e, [])
      | Inr valid \<Rightarrow>
          if \<not> valid then Some (Inr [], [])
          else get_profs_loop page_size pages responses (JStr []) [] 0 None [])"

section \<open>\<^verbatim>\<open>get_prof_reviews\<close>\<close>

text \<open>The dict \<^verbatim>\<open>{"data": results, "error": flag}\<close> that \<^verbatim>\<open>get_prof_reviews\<close> returns.\<close>

record task_result =
  task_data :: "json list"
  task_error :: bool

text \<open>The body of \<^verbatim>\<open>for node in nodes\<close> for one edge, up to the node that is appended.\<close>

definition get_prof_reviews_node :: "string \<Rightarrow> json \<Rightarrow> exn + json" where
  "get_prof_reviews_node prof_id node =
     and_then (py_getitem node ''node'') (\<lambda>node.
     and_then (py_setitem node ''profId'' (JStr prof_id)) (\<lambda>node.
     and_then (py_delitem node ''thumbs'') (\<lambda>node.
     and_then (py_contains ''teacherNote'' node) (\<lambda>has_note.
     if has_note then py_delitem node ''teacherNote'' else Inr node))))"

text \<open>
  The \<^verbatim>\<open>for\<close> loop: \<^verbatim>\<open>results\<close> is extended in place, so what was appended before an
  exception stays in it.
\<close>

fun get_prof_reviews_nodes :: "string \<Rightarrow> json list \<Rightarrow> json list \<Rightarrow> json list \<times> exn option" where
  "get_prof_reviews_nodes prof_id [] results = (results, None)"
| "get_prof_reviews_nodes prof_id (node # nodes) results =
     (case get_prof_reviews_node prof_id node of
        Inl e \<Rightarrow> (results, Some e)
      | Inr node \<Rightarrow> get_prof_reviews_nodes prof_id nodes (results @ [node]))"

text \<open>
  The \<^verbatim>\<open>while keep_going\<close> loop. Everything from the post to the reading of
  \<^verbatim>\<open>pageInfo\<close> is inside \<^verbatim>\<open>try\<close>, and \<^verbatim>\<open>except Exception\<close> returns the results so
  far with the error flag set.
\<close>

fun get_prof_reviews_loop ::
  "string \<Rightarrow> int \<Rightarrow> response list \<Rightarrow> json \<Rightarrow> json list \<Rightarrow> variables list \<Rightarrow>
   (task_result \<times> variables list) option" where
  "get_prof_reviews_loop prof_id num_reviews [] cur_cursor results sent = None"
| "get_prof_reviews_loop prof_id num_reviews (response # rest) cur_cursor results sent =
     (let sent = sent @ [\<lparr>count = min 1000 num_reviews, cursor = cur_cursor\<rparr>] in
      case response of
        PostRaises e \<Rightarrow> Some (\<lparr>task_data = results, task_error = True\<rparr>, sent)
      | JsonRaises e \<Rightarrow> Some (\<lparr>task_data = results, task_error = True\<rparr>, sent)
      | Json rj \<Rightarrow>
          (case and_then (py_path rj [''data'', ''node'', ''ratings'', ''edges'']) py_iter of
             Inl e \<Rightarrow> Some (\<lparr>task_data = results, task_error = True\<rparr>, sent)
           | Inr nodes \<Rightarrow>
               (case get_prof_reviews_nodes prof_id nodes results of
                  (results, Some e) \<Rightarrow> Some (\<lparr>task_data = results, task_error = True\<rparr>, sent)
                | (results, None) \<Rightarrow>
                    (case and_then (py_path rj [''data'', ''node'', ''ratings'', ''pageInfo''])
                            (\<lambda>page_info.
                          and_then (py_getitem page_info ''hasNextPage'') (\<lambda>keep_going.
                          and_then (py_getitem page_info ''endCursor'') (\<lambda>cur_cursor.
                          Inr (keep_going, cur_cursor)))) of
                       Inl e \<Rightarrow> Some (\<lparr>task_data = results, task_error = True\<rparr>, sent)
                     | Inr (keep_going, cur_cursor) \<Rightarrow>
                         if truthy keep_going
                         then get_prof_reviews_loop prof_id num_reviews rest cur_cursor results sent
                         else Some (\<lparr>task_data = results, task_error = False\<rparr>, sent)))))"

definition get_prof_reviews ::
  "response list \<Rightarrow> string \<Rightarrow> int \<Rightarrow> (task_result \<times> variables list) option" where
  "get_prof_reviews responses prof_id num_reviews =
     get_prof_reviews_loop prof_id num_reviews responses (JStr []) [] []"

section \<open>The dispatchers\<close>

text \<open>
  What \<^verbatim>\<open>future.result(timeout=...)\<close> does for one submitted unit: it returns the unit's
  return value, or it raises (the unit's own exception, or \<open>TimeoutError\<close>).
\<close>

datatype 'a future = Returned 'a | Raised exn

text \<open>The dict \<^verbatim>\<open>{"data": results, "errors": errors}\<close> of \<^verbatim>\<open>get_all_prof_reviews\<close>.\<close>

record collection_result =
  coll_data :: "json list"
  coll_errors :: "string list"

text \<open>
  The second loop of \<^verbatim>\<open>get_all_prof_reviews\<close>, over the futures in submission order.
  \<open>run i pid n\<close> is the outcome of the future submitted at position \<open>i\<close> for
  \<^verbatim>\<open>get_prof_reviews(pid, n)\<close>.
\<close>

fun get_all_prof_reviews_collect ::
  "(nat \<Rightarrow> string \<Rightarrow> int \<Rightarrow> task_result future) \<Rightarrow> nat \<Rightarrow> (string \<times> int) list \<Rightarrow>
   json list \<Rightarrow> string list \<Rightarrow> collection_result" where
  "get_all_prof_reviews_collect run i [] results errors =
     \<lparr>coll_data = results, coll_errors = errors\<rparr>"
| "get_all_prof_reviews_collect run i ((pid, n) # futures) results errors =
     (case run i pid n of
        Returned res \<Rightarrow>
          get_all_prof_reviews_collect run (Suc i) futures (results @ task_data res)
            (if task_error res then errors @ [pid] else errors)
      | Raised e \<Rightarrow>
          get_all_prof_reviews_collect run (Suc i) futures results (errors @ [pid]))"

text \<open>
  The submission loop reads \<^verbatim>\<open>prof_num_reviews[i]\<close> for every index of
  \<^verbatim>\<open>prof_ids\<close>, outside any \<^verbatim>\<open>try\<close>: a shorter hint list raises \<open>IndexError\<close>.
\<close>

definition get_all_prof_reviews ::
  "(nat \<Rightarrow> string \<Rightarrow> int \<Rightarrow> task_result future) \<Rightarrow> string list \<Rightarrow> int list \<Rightarrow>
   exn + collection_result" where
  "get_all_prof_reviews run prof_ids prof_num_reviews =
     (if length prof_num_reviews < length prof_ids then Inl IndexError
      else Inr (get_all_prof_reviews_collect run 0 (zip prof_ids prof_num_reviews) [] []))"

text \<open>
  \<^verbatim>\<open>pl.DataFrame(records)\<close> makes one row of each record; how a row is made of a
  record is the library's matter and is a parameter \<open>data_frame\<close> of the functions that
  write a table. \<^verbatim>\<open>DataFrame.unique()\<close> keeps one of the rows that are equal in every
  column. The order of the rows it returns is not part of its contract; this model keeps
  first occurrences in order, and the properties proved of it below speak of the row set
  and the row count only.
\<close>

fun unique :: "'a list \<Rightarrow> 'a list" where
  "unique [] = []"
| "unique (row # rows) = row # unique (filter (\<lambda>r. r \<noteq> row) rows)"

text \<open>
  \<^verbatim>\<open>all_profs\<close>: \<open>run i\<close> is the outcome of the future for \<^verbatim>\<open>get_profs(i)\<close>. The
  function returns \<^verbatim>\<open>result\<close>; the second component is the table written when
  \<^verbatim>\<open>save\<close> is given. No list of failed ids is kept.
\<close>

fun all_profs_collect :: "(int \<Rightarrow> json list future) \<Rightarrow> int list \<Rightarrow> json list \<Rightarrow> json list" where
  "all_profs_collect run [] result = result"
| "all_profs_collect run (i # futures) result =
     (case run i of
        Returned profs \<Rightarrow> all_profs_collect run futures (result @ profs)
      | Raised e \<Rightarrow> all_profs_collect run futures result)"

definition all_profs ::
  "(json list \<Rightarrow> 'row list) \<Rightarrow> (int \<Rightarrow> json list future) \<Rightarrow> int \<Rightarrow> int \<Rightarrow> bool \<Rightarrow>
   json list \<times> 'row list option" where
  "all_profs data_frame run start stop save =
     (let result = all_profs_collect run [start..stop - 1] []
      in (result, if save then Some (unique (data_frame result)) else None))"

section \<open>\<^verbatim>\<open>all_prof_reviews\<close>\<close>

text \<open>\<^verbatim>\<open>xs[start:stop]\<close> for ints, negative bounds counting from the end.\<close>

definition py_slice :: "'a list \<Rightarrow> int \<Rightarrow> int \<Rightarrow> 'a list" where
  "py_slice xs start stop =
     (let n = int (length xs);
          lo = (if start < 0 then max 0 (start + n) else min start n);
          hi = (if stop < 0 then max 0 (stop + n) else min stop n)
      in take (nat (hi - lo)) (drop (nat lo) xs))"

text \<open>
  The \<^verbatim>\<open>while keep_going\<close> loop over the windows; \<open>batch_count\<close> is its variable
  \<^verbatim>\<open>count\<close>. Each pass starts with a progress line that computes
  \<^verbatim>\<open>len(prof_ids) // batch_size\<close>, which raises for a batch size of 0. \<open>run batch_count\<close>
  gives the outcomes of the futures of that batch. An exception of the dispatcher is not
  caught. The loop need not end (with a negative batch size the start index never reaches
  the length of the list), which is \<open>None\<close>.
\<close>

partial_function (option) all_prof_reviews_loop ::
  "(int \<Rightarrow> nat \<Rightarrow> string \<Rightarrow> int \<Rightarrow> task_result future) \<Rightarrow> int \<Rightarrow> string list \<Rightarrow> int list \<Rightarrow>
   int \<Rightarrow> string list \<Rightarrow> json list \<Rightarrow> (exn + string list \<times> json list) option" where
  "all_prof_reviews_loop run batch_size prof_ids prof_num_reviews batch_count errors total_data =
     (if batch_size = 0 then Some (Inl ZeroDivisionError)
      else
        let start = batch_count * batch_size;
            stop = (batch_count + 1) * batch_size;
            batch_ids = py_slice prof_ids start stop;
            batch_nums = py_slice prof_num_reviews start stop;
            keep_going = start < int (length prof_ids)
        in case get_all_prof_reviews (run batch_count) batch_ids batch_nums of
             Inl e \<Rightarrow> Some (Inl e)
           | Inr results \<Rightarrow>
               (let errors = errors @ coll_errors results;
                    total_data = total_data @ coll_data results;
                    batch_count = batch_count + 1
                in if keep_going
                   then all_prof_reviews_loop run batch_size prof_ids prof_num_reviews batch_count
                          errors total_data
                   else Some (Inr (errors, total_data))))"

text \<open>
  The function returns \<^verbatim>\<open>errors\<close>; the second component is the table it writes:
  \<^verbatim>\<open>unique()\<close> of the rows of the records of all batches together.
\<close>

definition all_prof_reviews ::
  "(json list \<Rightarrow> 'row list) \<Rightarrow> (int \<Rightarrow> nat \<Rightarrow> string \<Rightarrow> int \<Rightarrow> task_result future) \<Rightarrow>
   string list \<Rightarrow> int list \<Rightarrow> int \<Rightarrow> (exn + string list \<times> 'row list) option" where
  "all_prof_reviews data_frame run prof_ids prof_num_reviews batch_size =
     (case all_prof_reviews_loop run batch_size prof_ids prof_num_reviews 0 [] [] of
        None \<Rightarrow> None
      | Some (Inl e) \<Rightarrow> Some (Inl e)
      | Some (Inr (errors, total_data)) \<Rightarrow> Some (Inr (errors, unique (data_frame total_data))))"

section \<open>What a page yields\<close>

text \<open>
  The records that \<^verbatim>\<open>get_profs\<close> appends for a list of per-edge outcomes: the nodes of
  the edges that were not skipped, in order.
\<close>

fun appended :: "json option list \<Rightarrow> json list" where
  "appended [] = []"
| "appended (None # outcomes) = appended outcomes"
| "appended (Some node # outcomes) = node # appended outcomes"

text \<open>
  A document of the professors query read without an exception: \<open>outcomes\<close> holds, for
  each edge in order, what the loop body does with it; \<open>has_more\<close> and \<open>end_cursor\<close>
  are the two entries of its \<^verbatim>\<open>pageInfo\<close>.
\<close>

fun profs_page_yields :: "json \<Rightarrow> json option list \<times> json \<times> json \<Rightarrow> bool" where
  "profs_page_yields j (outcomes, has_more, end_cursor) =
     ((case and_then (py_path j [''data'', ''search'', ''teachers'', ''edges'']) py_iter of
         Inl e \<Rightarrow> False
       | Inr edges \<Rightarrow> map get_profs_edge edges = map Inr outcomes)
      \<and> py_path j [''data'', ''search'', ''teachers'', ''pageInfo'', ''hasNextPage''] = Inr has_more
      \<and> py_path j [''data'', ''search'', ''teachers'', ''pageInfo'', ''endCursor''] = Inr end_cursor)"

text \<open>
  The same for a document of the reviews query: \<open>items\<close> holds, for each edge in order,
  the record the loop body appends for it.
\<close>

fun reviews_page_yields :: "string \<Rightarrow> json \<Rightarrow> json list \<times> json \<times> json \<Rightarrow> bool" where
  "reviews_page_yields prof_id rj (items, keep_going, end_cursor) =
     ((case and_then (py_path rj [''data'', ''node'', ''ratings'', ''edges'']) py_iter of
         Inl e \<Rightarrow> False
       | Inr nodes \<Rightarrow> map (get_prof_reviews_node prof_id) nodes = map Inr items)
      \<and> py_path rj [''data'', ''node'', ''ratings'', ''pageInfo'', ''hasNextPage''] = Inr keep_going
      \<and> py_path rj [''data'', ''node'', ''ratings'', ''pageInfo'', ''endCursor''] = Inr end_cursor)"

text \<open>The payloads of a run of requests that start from the given cursors.\<close>

definition requests :: "int \<Rightarrow> json list \<Rightarrow> variables list" where
  "requests n cursors = map (\<lambda>c. \<lparr>count = n, cursor = c\<rparr>) cursors"

text \<open>
  A response whose \<^verbatim>\<open>pageInfo\<close> says that no page follows: \<^verbatim>\<open>hasNextPage\<close> is there
  and is false as a truth value.
\<close>

fun profs_has_next_false :: "response \<Rightarrow> bool" where
  "profs_has_next_false (Json j) =
     (case py_path j [''data'', ''search'', ''teachers'', ''pageInfo'', ''hasNextPage''] of
        Inl e \<Rightarrow> False
      | Inr has_more \<Rightarrow> \<not> truthy has_more)"
| "profs_has_next_false _ = False"

fun reviews_has_next_false :: "response \<Rightarrow> bool" where
  "reviews_has_next_false (Json rj) =
     (case py_path rj [''data'', ''node'', ''ratings'', ''pageInfo'', ''hasNextPage''] of
        Inl e \<Rightarrow> False
      | Inr keep_going \<Rightarrow> \<not> truthy keep_going)"
| "reviews_has_next_false _ = False"

text \<open>
  A response on which the \<^verbatim>\<open>try\<close> block of \<^verbatim>\<open>get_prof_reviews\<close> raises, after having
  appended \<open>items\<close>: the post or \<^verbatim>\<open>json()\<close> raises, the edges cannot be read, a node
  cannot be reshaped, or \<^verbatim>\<open>pageInfo\<close> cannot be read.
\<close>

fun reviews_page_fails :: "string \<Rightarrow> response \<Rightarrow> json list \<Rightarrow> bool" where
  "reviews_page_fails prof_id (PostRaises e) items = (items = [])"
| "reviews_page_fails prof_id (JsonRaises e) items = (items = [])"
| "reviews_page_fails prof_id (Json rj) items =
     (case and_then (py_path rj [''data'', ''node'', ''ratings'', ''edges'']) py_iter of
        Inl e \<Rightarrow> items = []
      | Inr nodes \<Rightarrow>
          (case get_prof_reviews_nodes prof_id nodes [] of
             (appended_items, Some e) \<Rightarrow> items = appended_items
           | (appended_items, None) \<Rightarrow>
               items = appended_items
               \<and> (case and_then (py_path rj [''data'', ''node'', ''ratings'', ''pageInfo''])
                            (\<lambda>page_info.
                          and_then (py_getitem page_info ''hasNextPage'') (\<lambda>keep_going.
                          and_then (py_getitem page_info ''endCursor'') (\<lambda>cur_cursor.
                          Inr (keep_going, cur_cursor)))) of
                     Inl e \<Rightarrow> True
                   | Inr _ \<Rightarrow> False)))"

text \<open>
  A response on which \<^verbatim>\<open>get_profs\<close> returns from an \<^verbatim>\<open>except\<close> clause whatever came
  before: the document lacks one of the keys that the \<^verbatim>\<open>try\<close> block reads (\<^verbatim>\<open>data\<close>,
  \<^verbatim>\<open>search\<close>, \<^verbatim>\<open>teachers\<close>, \<^verbatim>\<open>pageInfo\<close>, \<^verbatim>\<open>edges\<close>), or \<^verbatim>\<open>json()\<close> raises an exception
  that the second clause takes. The keys read after the \<^verbatim>\<open>try\<close> block (\<^verbatim>\<open>node\<close>,
  \<^verbatim>\<open>__typename\<close>, \<^verbatim>\<open>school\<close>, \<^verbatim>\<open>hasNextPage\<close>, \<^verbatim>\<open>endCursor\<close>) are not among them: no
  clause guards those lookups.
\<close>

fun profs_malformed :: "response \<Rightarrow> bool" where
  "profs_malformed (PostRaises e) = False"
| "profs_malformed (JsonRaises e) =
     (\<not> is_RequestException e \<and> is_JSONDecodeError e)"
| "profs_malformed (Json j) =
     (and_then (py_path j [''data'', ''search'', ''teachers'', ''pageInfo''])
        (\<lambda>page_info. py_path j [''data'', ''search'', ''teachers'', ''edges''])
      = Inl KeyError)"

section \<open>What the units of a dispatch did\<close>

text \<open>
  The outcomes of the futures of \<^verbatim>\<open>get_all_prof_reviews\<close>, by position: the future at
  position \<open>i\<close> runs \<^verbatim>\<open>get_prof_reviews(prof_ids[i], prof_num_reviews[i])\<close>.
\<close>

definition unit_outcomes ::
  "(nat \<Rightarrow> string \<Rightarrow> int \<Rightarrow> task_result future) \<Rightarrow> string list \<Rightarrow> int list \<Rightarrow>
   task_result future list" where
  "unit_outcomes run prof_ids prof_num_reviews =
     map (\<lambda>i. run i (prof_ids ! i) (prof_num_reviews ! i)) [0..<length prof_ids]"

text \<open>
  A unit failed when its future raised (an exception of the unit, or the timeout) or
  returned with the error flag set; it succeeded otherwise.
\<close>

fun unit_failed :: "task_result future \<Rightarrow> bool" where
  "unit_failed (Returned res) = task_error res"
| "unit_failed (Raised e) = True"

text \<open>The data a unit handed back: nothing when its future raised.\<close>

fun returned_data :: "task_result future \<Rightarrow> json list" where
  "returned_data (Returned res) = task_data res"
| "returned_data (Raised e) = []"

fun returned_profs :: "json list future \<Rightarrow> json list" where
  "returned_profs (Returned profs) = profs"
| "returned_profs (Raised e) = []"

text \<open>The outcomes in the order in which the collecting loop meets them.\<close>

fun outcomes_from ::
  "(nat \<Rightarrow> string \<Rightarrow> int \<Rightarrow> task_result future) \<Rightarrow> nat \<Rightarrow> (string \<times> int) list \<Rightarrow>
   task_result future list" where
  "outcomes_from run i [] = []"
| "outcomes_from run i ((pid, n) # futures) = run i pid n # outcomes_from run (Suc i) futures"

text \<open>
  When the outcome of a unit depends on its id and hint only (\<open>unit pid n\<close>), what a
  list of work items contributes: the data of the units that returned, and the ids of the
  units that failed.
\<close>

definition work_data :: "(string \<Rightarrow> int \<Rightarrow> task_result future) \<Rightarrow> (string \<times> int) list \<Rightarrow> json list" where
  "work_data unit work = concat (map (\<lambda>(pid, n). returned_data (unit pid n)) work)"

definition work_errors :: "(string \<Rightarrow> int \<Rightarrow> task_result future) \<Rightarrow> (string \<times> int) list \<Rightarrow> string list" where
  "work_errors unit work = map fst (filter (\<lambda>(pid, n). unit_failed (unit pid n)) work)"

section \<open>Concrete runs\<close>

text \<open>Inputs on which the properties below are evaluated.\<close>

definition no_ratings_page :: string where
  "no_ratings_page = ''<p>Professors at this school do not have any ratings yet.</p>''"

definition valid_school_page :: string where
  "valid_school_page = ''<h1>Example University</h1>''"

text \<open>
  Documents in the shape the two queries return: \<^verbatim>\<open>edges\<close>, each wrapping a
  \<^verbatim>\<open>node\<close>, and \<^verbatim>\<open>pageInfo\<close> with \<^verbatim>\<open>hasNextPage\<close> and \<^verbatim>\<open>endCursor\<close>.
\<close>

definition profs_doc :: "json list \<Rightarrow> json \<Rightarrow> json \<Rightarrow> json" where
  "profs_doc nodes has_next end_cursor =
     JObj [(''data'', JObj [(''search'', JObj [(''teachers'', JObj
       [(''edges'', JArr (map (\<lambda>n. JObj [(''node'', n)]) nodes)),
        (''pageInfo'', JObj [(''hasNextPage'', has_next), (''endCursor'', end_cursor)])])])])]"

definition reviews_doc :: "json list \<Rightarrow> json \<Rightarrow> json \<Rightarrow> json" where
  "reviews_doc nodes has_next end_cursor =
     JObj [(''data'', JObj [(''node'', JObj [(''ratings'', JObj
       [(''edges'', JArr (map (\<lambda>n. JObj [(''node'', n)]) nodes)),
        (''pageInfo'', JObj [(''hasNextPage'', has_next), (''endCursor'', end_cursor)])])])])]"

definition teacher :: "string \<Rightarrow> json" where
  "teacher name =
     JObj [(''__typename'', JStr ''Teacher''), (''lastName'', JStr name),
           (''school'', JObj [(''id'', JStr ''U2Nob29sLTE='' ), (''name'', JStr ''Example University'')])]"

definition teacher_record :: "string \<Rightarrow> json" where
  "teacher_record name =
     JObj [(''__typename'', JStr ''Teacher''), (''lastName'', JStr name),
           (''schoolId'', JStr ''U2Nob29sLTE=''), (''schoolName'', JStr ''Example University'')]"

definition campus :: json where
  "campus = JObj [(''__typename'', JStr ''School''), (''name'', JStr ''Example University'')]"

definition review :: "string \<Rightarrow> json" where
  "review c = JObj [(''comment'', JStr c), (''thumbs'', JArr []), (''teacherNote'', JNull)]"

definition review_without_thumbs :: "string \<Rightarrow> json" where
  "review_without_thumbs c = JObj [(''comment'', JStr c)]"

definition review_record :: "string \<Rightarrow> string \<Rightarrow> json" where
  "review_record prof_id c = JObj [(''comment'', JStr c), (''profId'', JStr prof_id)]"

text \<open>Three schools, of which the second times out, or has no professors.\<close>

definition school_with_timeout :: "int \<Rightarrow> json list future" where
  "school_with_timeout i = (if i = 1 then Raised TimeoutError else Returned [JObj [(''id'', JInt i)]])"

definition school_without_profs :: "int \<Rightarrow> json list future" where
  "school_without_profs i = (if i = 1 then Returned [] else Returned [JObj [(''id'', JInt i)]])"

text \<open>Five professors, of which the third times out.\<close>

definition third_times_out :: "nat \<Rightarrow> string \<Rightarrow> int \<Rightarrow> task_result future" where
  "third_times_out i pid n =
     (if i = 2 then Raised TimeoutError
      else Returned \<lparr>task_data = [review_record pid ''A''], task_error = False\<rparr>)"

text \<open>A unit whose outcome depends on the professor only: \<^verbatim>\<open>p3\<close> always times out.\<close>

definition p3_times_out :: "string \<Rightarrow> int \<Rightarrow> task_result future" where
  "p3_times_out pid n =
     (if pid = ''p3'' then Raised TimeoutError
      else Returned \<lparr>task_data = [review_record pid ''A''], task_error = False\<rparr>)"

definition steady_run :: "int \<Rightarrow> nat \<Rightarrow> string \<Rightarrow> int \<Rightarrow> task_result future" where
  "steady_run batch i = p3_times_out"

text \<open>A table whose rows are the records themselves.\<close>

definition record_rows :: "json list \<Rightarrow> json list" where
  "record_rows records = records"

section \<open>Reading a page\<close>

lemma and_then_Inr_iff:
  "and_then m f = Inr y \<longleftrightarrow> (\<exists>x. m = Inr x \<and> f x = Inr y)"
  by (cases m) auto

lemma and_then_assoc:
  "and_then (and_then m f) g = and_then m (\<lambda>x. and_then (f x) g)"
  by (cases m) auto

lemma py_path_snoc:
  "py_path v (ks @ [k]) = and_then (py_path v ks) (\<lambda>v'. py_getitem v' k)"
proof (induction ks arbitrary: v)
  case Nil
  show ?case by (cases "py_getitem v k") auto
next
  case (Cons a ks)
  show ?case by (cases "py_getitem v a") (auto simp: Cons.IH)
qed

lemma py_path_page_info:
  "py_path v [a, b, c, d, k] = and_then (py_path v [a, b, c, d]) (\<lambda>v'. py_getitem v' k)"
  using py_path_snoc [of v "[a, b, c, d]" k] by simp

lemma get_profs_edges_outcomes:
  "map get_profs_edge edges = map Inr outcomes \<Longrightarrow>
   get_profs_edges edges results = Inr (results @ appended outcomes)"
proof (induction edges arbitrary: outcomes results)
  case Nil
  then show ?case by simp
next
  case (Cons edge edges)
  then obtain outcome outcomes' where o: "outcomes = outcome # outcomes'"
    "get_profs_edge edge = Inr outcome" "map get_profs_edge edges = map Inr outcomes'"
    by (cases outcomes) auto
  show ?case
    using Cons.IH [OF o(3)] o(1,2) by (cases outcome) auto
qed

lemma get_prof_reviews_nodes_items:
  "map (get_prof_reviews_node prof_id) nodes = map Inr items \<Longrightarrow>
   get_prof_reviews_nodes prof_id nodes results = (results @ items, None)"
proof (induction nodes arbitrary: items results)
  case Nil
  then show ?case by simp
next
  case (Cons node nodes)
  then obtain item items' where o: "items = item # items'"
    "get_prof_reviews_node prof_id node = Inr item"
    "map (get_prof_reviews_node prof_id) nodes = map Inr items'"
    by (cases items) auto
  show ?case
    using Cons.IH [OF o(3)] o(1,2) by auto
qed

lemma get_profs_loop_page:
  assumes "profs_page_yields j (outcomes, has_more, end_cursor)"
  shows "get_profs_loop page_size pages (Json j # rest) cur_cursor results pages_so_far j0 sent =
     (if pages \<noteq> None \<and> pages_so_far + 1 \<ge> the pages
      then Some (Inr (results @ appended outcomes), sent @ [\<lparr>count = page_size, cursor = cur_cursor\<rparr>])
      else if truthy has_more
      then get_profs_loop page_size pages rest end_cursor (results @ appended outcomes)
             (pages_so_far + 1) (Some j) (sent @ [\<lparr>count = page_size, cursor = cur_cursor\<rparr>])
      else Some (Inr (results @ appended outcomes), sent @ [\<lparr>count = page_size, cursor = cur_cursor\<rparr>]))"
proof -
  let ?p = "[''data'', ''search'', ''teachers'']"
  from assms obtain edges where
    e: "and_then (py_path j (?p @ [''edges''])) py_iter = Inr edges"
       "map get_profs_edge edges = map Inr outcomes"
    and h: "py_path j (?p @ [''pageInfo'', ''hasNextPage'']) = Inr has_more"
    and c: "py_path j (?p @ [''pageInfo'', ''endCursor'']) = Inr end_cursor"
    by (auto simp del: py_path.simps split: sum.splits)
  from e(1) obtain ev where ev: "py_path j (?p @ [''edges'']) = Inr ev" "py_iter ev = Inr edges"
    by (auto simp del: py_path.simps simp: and_then_Inr_iff)
  from h obtain page_info where pi: "py_path j (?p @ [''pageInfo'']) = Inr page_info"
    "py_getitem page_info ''hasNextPage'' = Inr has_more"
    using py_path_page_info [of j "''data''" "''search''" "''teachers''" "''pageInfo''" "''hasNextPage''"]
    by (auto simp del: py_path.simps simp: and_then_Inr_iff)
  from c pi(1) have pc: "py_getitem page_info ''endCursor'' = Inr end_cursor"
    using py_path_page_info [of j "''data''" "''search''" "''teachers''" "''pageInfo''" "''endCursor''"]
    by (auto simp del: py_path.simps simp: and_then_Inr_iff)
  show ?thesis
    using ev pi pc get_profs_edges_outcomes [OF e(2), of results]
    by (simp del: py_path.simps add: Let_def)
qed

lemma get_prof_reviews_loop_page:
  assumes "reviews_page_yields prof_id rj (items, keep_going, end_cursor)"
  shows "get_prof_reviews_loop prof_id num_reviews (Json rj # rest) cur_cursor results sent =
     (if truthy keep_going
      then get_prof_reviews_loop prof_id num_reviews rest end_cursor (results @ items)
             (sent @ [\<lparr>count = min 1000 num_reviews, cursor = cur_cursor\<rparr>])
      else Some (\<lparr>task_data = results @ items, task_error = False\<rparr>,
                 sent @ [\<lparr>count = min 1000 num_reviews, cursor = cur_cursor\<rparr>]))"
proof -
  let ?p = "[''data'', ''node'', ''ratings'']"
  from assms obtain nodes where
    e: "and_then (py_path rj (?p @ [''edges''])) py_iter = Inr nodes"
       "map (get_prof_reviews_node prof_id) nodes = map Inr items"
    and h: "py_path rj (?p @ [''pageInfo'', ''hasNextPage'']) = Inr keep_going"
    and c: "py_path rj (?p @ [''pageInfo'', ''endCursor'']) = Inr end_cursor"
    by (auto simp del: py_path.simps split: sum.splits)
  from h obtain page_info where pi: "py_path rj (?p @ [''pageInfo'']) = Inr page_info"
    "py_getitem page_info ''hasNextPage'' = Inr keep_going"
    using py_path_page_info [of rj "''data''" "''node''" "''ratings''" "''pageInfo''" "''hasNextPage''"]
    by (auto simp del: py_path.simps simp: and_then_Inr_iff)
  from c pi(1) have pc: "py_getitem page_info ''endCursor'' = Inr end_cursor"
    using py_path_page_info [of rj "''data''" "''node''" "''ratings''" "''pageInfo''" "''endCursor''"]
    by (auto simp del: py_path.simps simp: and_then_Inr_iff)
  show ?thesis
    using e(1) pi pc get_prof_reviews_nodes_items [OF e(2), of results]
    by (simp del: py_path.simps add: Let_def)
qed

section \<open>Runs through pages that ask for more\<close>

lemma last_Cons_Cons: "last (x # y # ys) = last (y # ys)"
  by simp

lemma butlast_Cons_Cons: "butlast (x # y # ys) = x # butlast (y # ys)"
  by simp

lemma get_profs_loop_pages:
  assumes "list_all2 profs_page_yields docs pages"
    and "\<forall>p\<in>set pages. truthy (fst (snd p))"
    and "cap = None \<or> pages_so_far + int (length pages) < the cap"
  shows "get_profs_loop page_size cap (map Json docs @ rest) cur_cursor results pages_so_far j sent =
     get_profs_loop page_size cap rest (last (cur_cursor # map (\<lambda>p. snd (snd p)) pages))
       (results @ concat (map (\<lambda>p. appended (fst p)) pages))
       (pages_so_far + int (length pages))
       (last (j # map Some docs))
       (sent @ requests page_size (butlast (cur_cursor # map (\<lambda>p. snd (snd p)) pages)))"
  using assms
proof (induction docs pages arbitrary: cur_cursor results pages_so_far j sent rule: list_all2_induct)
  case Nil
  then show ?case by (simp add: requests_def)
next
  case (Cons doc docs page pages)
  obtain outcomes has_more end_cursor where page: "page = (outcomes, has_more, end_cursor)"
    by (cases page) auto
  from Cons.prems have t: "truthy has_more" and ts: "\<forall>p\<in>set pages. truthy (fst (snd p))"
    by (auto simp: page)
  from Cons.prems have cap1: "\<not> (cap \<noteq> None \<and> pages_so_far + 1 \<ge> the cap)"
    and cap2: "cap = None \<or> (pages_so_far + 1) + int (length pages) < the cap"
    by auto
  have "get_profs_loop page_size cap (map Json (doc # docs) @ rest) cur_cursor results pages_so_far j sent
      = get_profs_loop page_size cap (map Json docs @ rest) end_cursor (results @ appended outcomes)
          (pages_so_far + 1) (Some doc) (sent @ [\<lparr>count = page_size, cursor = cur_cursor\<rparr>])"
    using t cap1
    by (auto simp del: get_profs_loop.simps
        simp add: get_profs_loop_page [OF Cons.hyps(1) [unfolded page]])
  also have "\<dots> = get_profs_loop page_size cap rest (last (end_cursor # map (\<lambda>p. snd (snd p)) pages))
       ((results @ appended outcomes) @ concat (map (\<lambda>p. appended (fst p)) pages))
       ((pages_so_far + 1) + int (length pages))
       (last (Some doc # map Some docs))
       ((sent @ [\<lparr>count = page_size, cursor = cur_cursor\<rparr>])
          @ requests page_size (butlast (end_cursor # map (\<lambda>p. snd (snd p)) pages)))"
    by (rule Cons.IH [OF ts cap2])
  finally show ?case
    by (simp del: get_profs_loop.simps last.simps butlast.simps
        add: page requests_def last_Cons_Cons butlast_Cons_Cons add.assoc)
qed

lemma get_prof_reviews_loop_pages:
  assumes "list_all2 (reviews_page_yields prof_id) docs pages"
    and "\<forall>p\<in>set pages. truthy (fst (snd p))"
  shows "get_prof_reviews_loop prof_id num_reviews (map Json docs @ rest) cur_cursor results sent =
     get_prof_reviews_loop prof_id num_reviews rest (last (cur_cursor # map (\<lambda>p. snd (snd p)) pages))
       (results @ concat (map fst pages))
       (sent @ requests (min 1000 num_reviews) (butlast (cur_cursor # map (\<lambda>p. snd (snd p)) pages)))"
  using assms
proof (induction docs pages arbitrary: cur_cursor results sent rule: list_all2_induct)
  case Nil
  then show ?case by (simp add: requests_def)
next
  case (Cons doc docs page pages)
  obtain items keep_going end_cursor where page: "page = (items, keep_going, end_cursor)"
    by (cases page) auto
  from Cons.prems have t: "truthy keep_going" and ts: "\<forall>p\<in>set pages. truthy (fst (snd p))"
    by (auto simp: page)
  have "get_prof_reviews_loop prof_id num_reviews (map Json (doc # docs) @ rest) cur_cursor results sent
      = get_prof_reviews_loop prof_id num_reviews (map Json docs @ rest) end_cursor (results @ items)
          (sent @ [\<lparr>count = min 1000 num_reviews, cursor = cur_cursor\<rparr>])"
    using t
    by (simp del: get_prof_reviews_loop.simps
        add: get_prof_reviews_loop_page [OF Cons.hyps(1) [unfolded page]])
  also have "\<dots> = get_prof_reviews_loop prof_id num_reviews rest
       (last (end_cursor # map (\<lambda>p. snd (snd p)) pages))
       ((results @ items) @ concat (map fst pages))
       ((sent @ [\<lparr>count = min 1000 num_reviews, cursor = cur_cursor\<rparr>])
          @ requests (min 1000 num_reviews) (butlast (end_cursor # map (\<lambda>p. snd (snd p)) pages)))"
    by (rule Cons.IH [OF ts])
  finally show ?case
    by (simp del: get_prof_reviews_loop.simps last.simps butlast.simps
        add: page requests_def last_Cons_Cons butlast_Cons_Cons)
qed

section \<open>One trip through a loop\<close>

lemma get_profs_loop_cases:
  fixes page_size cur_cursor sent
  defines "v \<equiv> \<lparr>count = page_size, cursor = cur_cursor\<rparr>"
  obtains
    (raise) e where
      "get_profs_loop page_size cap (response # rest) cur_cursor results pages_so_far j sent
         = Some (Inl e, sent @ [v])"
  | (stop) edges results' where
      "get_profs_loop page_size cap (response # rest) cur_cursor results pages_so_far j sent
         = Some (Inr results', sent @ [v])"
      "get_profs_edges edges results = Inr results'"
  | (continue) edges results' c jv where
      "get_profs_loop page_size cap (response # rest) cur_cursor results pages_so_far j sent
         = get_profs_loop page_size cap rest c results' (pages_so_far + 1) (Some jv) (sent @ [v])"
      "get_profs_edges edges results = Inr results'"
proof -
  have "(\<exists>e. get_profs_loop page_size cap (response # rest) cur_cursor results pages_so_far j sent
            = Some (Inl e, sent @ [v]))
      \<or> get_profs_loop page_size cap (response # rest) cur_cursor results pages_so_far j sent
            = Some (Inr results, sent @ [v])
      \<or> (\<exists>edges results'. get_profs_loop page_size cap (response # rest) cur_cursor results pages_so_far j sent
            = Some (Inr results', sent @ [v]) \<and> get_profs_edges edges results = Inr results')
      \<or> (\<exists>edges results' c jv.
            get_profs_loop page_size cap (response # rest) cur_cursor results pages_so_far j sent
              = get_profs_loop page_size cap rest c results' (pages_so_far + 1) (Some jv) (sent @ [v])
            \<and> get_profs_edges edges results = Inr results')"
  proof (cases response)
    case (PostRaises e)
    then show ?thesis by (simp add: v_def)
  next
    case (JsonRaises e)
    then show ?thesis
      by (cases "get_profs_except e j results")
        (auto simp: v_def get_profs_except_def and_then_Inr_iff split: if_splits option.splits)
  next
    case (Json jv)
    show ?thesis
    proof (cases "and_then (py_path jv [''data'', ''search'', ''teachers'', ''pageInfo''])
                  (\<lambda>page_info.
                and_then (py_path jv [''data'', ''search'', ''teachers'', ''edges''])
                  (\<lambda>edges. Inr (page_info, edges)))")
      case (Inl e)
      then show ?thesis
        using Json
        by (cases "get_profs_except e (Some jv) results")
          (auto simp del: py_path.simps
            simp: v_def get_profs_except_def and_then_Inr_iff split: if_splits)
    next
      case (Inr pe)
      obtain page_info ev where pe: "pe = (page_info, ev)" by (cases pe) auto
      show ?thesis
      proof (cases "and_then (py_iter ev) (\<lambda>edges. get_profs_edges edges results)")
        case (Inl e)
        then show ?thesis using Json Inr pe by (simp del: py_path.simps add: v_def)
      next
        case res: (Inr results')
        then obtain edges where edges: "get_profs_edges edges results = Inr results'"
          by (auto simp: and_then_Inr_iff)
        show ?thesis
          using Json Inr pe res edges
          by (cases "py_getitem page_info ''hasNextPage''"; cases "py_getitem page_info ''endCursor''")
            (simp_all del: py_path.simps get_profs_loop.simps
               add: get_profs_loop.simps(2) [of _ _ "Json jv"] v_def Let_def, blast+)
      qed
    qed
  qed
  moreover have "get_profs_edges [] results = Inr results"
    by simp
  ultimately show ?thesis
    using raise stop continue by metis
qed

lemma get_prof_reviews_loop_cases:
  fixes num_reviews cur_cursor sent
  defines "v \<equiv> \<lparr>count = min 1000 num_reviews, cursor = cur_cursor\<rparr>"
  obtains
    (stop) nodes results' e flag where
      "get_prof_reviews_loop prof_id num_reviews (response # rest) cur_cursor results sent
         = Some (\<lparr>task_data = results', task_error = flag\<rparr>, sent @ [v])"
      "get_prof_reviews_nodes prof_id nodes results = (results', e)"
  | (continue) nodes results' c where
      "get_prof_reviews_loop prof_id num_reviews (response # rest) cur_cursor results sent
         = get_prof_reviews_loop prof_id num_reviews rest c results' (sent @ [v])"
      "get_prof_reviews_nodes prof_id nodes results = (results', None)"
proof -
  have nil: "get_prof_reviews_nodes prof_id [] results = (results, None)"
    by simp
  have "(\<exists>nodes results' e flag.
            get_prof_reviews_loop prof_id num_reviews (response # rest) cur_cursor results sent
              = Some (\<lparr>task_data = results', task_error = flag\<rparr>, sent @ [v])
            \<and> get_prof_reviews_nodes prof_id nodes results = (results', e))
      \<or> (\<exists>nodes results' c.
            get_prof_reviews_loop prof_id num_reviews (response # rest) cur_cursor results sent
              = get_prof_reviews_loop prof_id num_reviews rest c results' (sent @ [v])
            \<and> get_prof_reviews_nodes prof_id nodes results = (results', None))"
  proof (cases response)
    case (PostRaises e)
    then show ?thesis by (simp add: v_def) (metis nil)
  next
    case (JsonRaises e)
    then show ?thesis by (simp add: v_def) (metis nil)
  next
    case (Json rj)
    show ?thesis
    proof (cases "and_then (py_path rj [''data'', ''node'', ''ratings'', ''edges'']) py_iter")
      case (Inl e)
      then show ?thesis using Json by (simp del: py_path.simps add: v_def) (metis nil)
    next
      case (Inr nodes)
      obtain results' e where nodes: "get_prof_reviews_nodes prof_id nodes results = (results', e)"
        by (cases "get_prof_reviews_nodes prof_id nodes results") auto
      show ?thesis
      proof (cases e)
        case (Some x)
        then show ?thesis
          using Json Inr nodes by (simp del: py_path.simps add: v_def) blast
      next
        case None
        show ?thesis
        proof (cases "and_then (py_path rj [''data'', ''node'', ''ratings'', ''pageInfo''])
                            (\<lambda>page_info.
                          and_then (py_getitem page_info ''hasNextPage'') (\<lambda>keep_going.
                          and_then (py_getitem page_info ''endCursor'') (\<lambda>cur_cursor.
                          Inr (keep_going, cur_cursor))))")
          case (Inl e')
          then show ?thesis
            using Json Inr nodes None by (simp del: py_path.simps add: v_def) blast
        next
          case kc: (Inr kc)
          obtain keep_going c where "kc = (keep_going, c)" by (cases kc) auto
          then show ?thesis
            using Json Inr nodes None kc
            by (cases "truthy keep_going")
              (simp_all del: py_path.simps get_prof_reviews_loop.simps
                 add: get_prof_reviews_loop.simps(2) [of _ _ "Json rj"] v_def Let_def, blast+)
        qed
      qed
    qed
  qed
  then show ?thesis
    using stop continue by metis
qed

lemma get_profs_edges_new:
  "get_profs_edges edges results = Inr results' \<Longrightarrow>
   \<exists>new. results' = results @ new
     \<and> (\<forall>r\<in>set new. \<exists>edge\<in>set edges. get_profs_edge edge = Inr (Some r))"
proof (induction edges arbitrary: results)
  case Nil
  then show ?case by simp
next
  case (Cons edge edges)
  show ?case
  proof (cases "get_profs_edge edge")
    case (Inl e)
    with Cons.prems show ?thesis by simp
  next
    case (Inr outcome)
    show ?thesis
    proof (cases outcome)
      case None
      with Inr Cons.prems have "get_profs_edges edges results = Inr results'" by simp
      from Cons.IH [OF this] show ?thesis by auto
    next
      case (Some node)
      with Inr Cons.prems have "get_profs_edges edges (results @ [node]) = Inr results'" by simp
      from Cons.IH [OF this] obtain new where
        "results' = (results @ [node]) @ new"
        "\<forall>r\<in>set new. \<exists>edge\<in>set edges. get_profs_edge edge = Inr (Some r)"
        by blast
      then have "results' = results @ (node # new)
          \<and> (\<forall>r\<in>set (node # new). \<exists>e\<in>set (edge # edges). get_profs_edge e = Inr (Some r))"
        using Inr Some by auto
      then show ?thesis by blast
    qed
  qed
qed

lemma get_prof_reviews_nodes_new:
  "get_prof_reviews_nodes prof_id nodes results = (results', e) \<Longrightarrow>
   \<exists>new. results' = results @ new
     \<and> (\<forall>r\<in>set new. \<exists>node\<in>set nodes. get_prof_reviews_node prof_id node = Inr r)"
proof (induction nodes arbitrary: results)
  case Nil
  then show ?case by simp
next
  case (Cons node nodes)
  show ?case
  proof (cases "get_prof_reviews_node prof_id node")
    case (Inl e')
    with Cons.prems show ?thesis by simp
  next
    case (Inr item)
    with Cons.prems have "get_prof_reviews_nodes prof_id nodes (results @ [item]) = (results', e)"
      by simp
    from Cons.IH [OF this] obtain new where
      "results' = (results @ [item]) @ new"
      "\<forall>r\<in>set new. \<exists>node\<in>set nodes. get_prof_reviews_node prof_id node = Inr r"
      by blast
    then have "results' = results @ (item # new)
        \<and> (\<forall>r\<in>set (item # new). \<exists>n\<in>set (node # nodes). get_prof_reviews_node prof_id n = Inr r)"
      using Inr by auto
    then show ?thesis by blast
  qed
qed

text \<open>
  What every finished run satisfies: the requests carry the same count, and the records
  returned are the ones held at the start followed by records that the loop body made.
\<close>

lemma get_profs_loop_inv:
  "get_profs_loop page_size cap responses cur_cursor results pages_so_far j sent = Some (out, sent')
   \<Longrightarrow> (\<exists>new. sent' = sent @ new \<and> new \<noteq> [] \<and> (\<forall>v\<in>set new. count v = page_size))
     \<and> (\<forall>results'. out = Inr results' \<longrightarrow>
          (\<exists>new. results' = results @ new
             \<and> (\<forall>r\<in>set new. \<exists>edge. get_profs_edge edge = Inr (Some r))))"
proof (induction responses arbitrary: cur_cursor results pages_so_far j sent)
  case Nil
  then show ?case by simp
next
  case (Cons response rest)
  let ?v = "\<lparr>count = page_size, cursor = cur_cursor\<rparr>"
  show ?case
  proof (cases rule: get_profs_loop_cases
      [of page_size cap response rest cur_cursor results pages_so_far j sent])
    case (raise e)
    with Cons.prems have "out = Inl e" "sent' = sent @ [?v]" by auto
    then show ?thesis by auto
  next
    case (stop edges results')
    with Cons.prems have o: "out = Inr results'" "sent' = sent @ [?v]" by auto
    from get_profs_edges_new [OF stop(2)] o show ?thesis by auto blast+
  next
    case (continue edges results' c jv)
    with Cons.prems have
      "get_profs_loop page_size cap rest c results' (pages_so_far + 1) (Some jv) (sent @ [?v])
         = Some (out, sent')"
      by simp
    from Cons.IH [OF this] obtain new where new: "sent' = (sent @ [?v]) @ new"
      "\<forall>v\<in>set new. count v = page_size"
      and res: "\<forall>results''. out = Inr results'' \<longrightarrow>
          (\<exists>new. results'' = results' @ new
             \<and> (\<forall>r\<in>set new. \<exists>edge. get_profs_edge edge = Inr (Some r)))"
      by blast
    from new have "sent' = sent @ (?v # new) \<and> ?v # new \<noteq> []
        \<and> (\<forall>v\<in>set (?v # new). count v = page_size)"
      by simp
    then have 1: "\<exists>new. sent' = sent @ new \<and> new \<noteq> [] \<and> (\<forall>v\<in>set new. count v = page_size)"
      by blast
    have 2: "\<exists>new. results'' = results @ new
             \<and> (\<forall>r\<in>set new. \<exists>edge. get_profs_edge edge = Inr (Some r))"
      if "out = Inr results''" for results''
    proof -
      from res that obtain new2 where n2: "results'' = results' @ new2"
        "\<forall>r\<in>set new2. \<exists>edge. get_profs_edge edge = Inr (Some r)"
        by blast
      from get_profs_edges_new [OF continue(2)] obtain new1 where n1: "results' = results @ new1"
        "\<forall>r\<in>set new1. \<exists>edge\<in>set edges. get_profs_edge edge = Inr (Some r)"
        by blast
      from n1 n2 have "results'' = results @ (new1 @ new2)
          \<and> (\<forall>r\<in>set (new1 @ new2). \<exists>edge. get_profs_edge edge = Inr (Some r))"
        by auto
      then show ?thesis by blast
    qed
    from 1 2 show ?thesis by blast
  qed
qed

lemma get_prof_reviews_loop_inv:
  "get_prof_reviews_loop prof_id num_reviews responses cur_cursor results sent = Some (res, sent')
   \<Longrightarrow> (\<exists>new. sent' = sent @ new \<and> new \<noteq> [] \<and> (\<forall>v\<in>set new. count v = min 1000 num_reviews))
     \<and> (\<exists>new. task_data res = results @ new
          \<and> (\<forall>r\<in>set new. \<exists>node. get_prof_reviews_node prof_id node = Inr r))"
proof (induction responses arbitrary: cur_cursor results sent)
  case Nil
  then show ?case by simp
next
  case (Cons response rest)
  let ?v = "\<lparr>count = min 1000 num_reviews, cursor = cur_cursor\<rparr>"
  show ?case
  proof (cases rule: get_prof_reviews_loop_cases
      [of prof_id num_reviews response rest cur_cursor results sent])
    case (stop nodes results' e flag)
    with Cons.prems have o: "task_data res = results'" "sent' = sent @ [?v]" by auto
    from get_prof_reviews_nodes_new [OF stop(2)] o show ?thesis by auto blast+
  next
    case (continue nodes results' c)
    with Cons.prems have
      "get_prof_reviews_loop prof_id num_reviews rest c results' (sent @ [?v]) = Some (res, sent')"
      by simp
    from Cons.IH [OF this] obtain new new2 where new: "sent' = (sent @ [?v]) @ new"
      "\<forall>v\<in>set new. count v = min 1000 num_reviews"
      and n2: "task_data res = results' @ new2"
        "\<forall>r\<in>set new2. \<exists>node. get_prof_reviews_node prof_id node = Inr r"
      by blast
    from new have "sent' = sent @ (?v # new) \<and> ?v # new \<noteq> []
        \<and> (\<forall>v\<in>set (?v # new). count v = min 1000 num_reviews)"
      by simp
    then have 1: "\<exists>new. sent' = sent @ new \<and> new \<noteq> []
        \<and> (\<forall>v\<in>set new. count v = min 1000 num_reviews)"
      by blast
    from get_prof_reviews_nodes_new [OF continue(2)] obtain new1 where n1: "results' = results @ new1"
      "\<forall>r\<in>set new1. \<exists>node\<in>set nodes. get_prof_reviews_node prof_id node = Inr r"
      by blast
    from n1 n2 have "task_data res = results @ (new1 @ new2)
        \<and> (\<forall>r\<in>set (new1 @ new2). \<exists>node. get_prof_reviews_node prof_id node = Inr r)"
      by auto
    then have 2: "\<exists>new. task_data res = results @ new
          \<and> (\<forall>r\<in>set new. \<exists>node. get_prof_reviews_node prof_id node = Inr r)"
      by blast
    from 1 2 show ?thesis by blast
  qed
qed

section \<open>What the loop bodies do to one edge\<close>

lemma py_getitem_Inr:
  "py_getitem v k = Inr x \<longleftrightarrow> (\<exists>kvs. v = JObj kvs \<and> map_of kvs k = Some x)"
  by (cases v) (auto split: option.splits)

lemma py_setitem_Inr:
  "py_setitem v k x = Inr y \<longleftrightarrow> (\<exists>kvs. v = JObj kvs \<and> y = JObj (AList.update k x kvs))"
  by (cases v) auto

lemma py_delitem_Inr:
  "py_delitem v k = Inr y \<longleftrightarrow>
   (\<exists>kvs. v = JObj kvs \<and> map_of kvs k \<noteq> None \<and> y = JObj (AList.delete k kvs))"
  by (cases v) (auto split: option.splits)

lemma get_profs_edge_Some:
  assumes "get_profs_edge edge = Inr (Some r)"
  obtains kvs school sid sname where
    "py_getitem edge ''node'' = Inr (JObj kvs)"
    "map_of kvs ''__typename'' = Some (JStr ''Teacher'')"
    "map_of kvs ''school'' = Some school"
    "py_getitem school ''id'' = Inr sid"
    "py_getitem school ''name'' = Inr sname"
    "r = JObj (AList.delete ''school''
           (AList.update ''schoolName'' sname (AList.update ''schoolId'' sid kvs)))"
proof -
  from assms obtain node typename where
    n: "py_getitem edge ''node'' = Inr node" "py_getitem node ''__typename'' = Inr typename"
    and rest: "(if \<not> typename = JStr ''Teacher'' then Inr None
     else
       and_then (py_path node [''school'', ''id'']) (\<lambda>school_id.
       and_then (py_setitem node ''schoolId'' school_id) (\<lambda>node.
       and_then (py_path node [''school'', ''name'']) (\<lambda>school_name.
       and_then (py_setitem node ''schoolName'' school_name) (\<lambda>node.
       and_then (py_delitem node ''school'') (\<lambda>node.
       Inr (Some node))))))) = Inr (Some r)"
    unfolding get_profs_edge_def and_then_Inr_iff by blast
  from n(2) obtain kvs where kvs: "node = JObj kvs" "map_of kvs ''__typename'' = Some typename"
    unfolding py_getitem_Inr by blast
  from rest have t: "typename = JStr ''Teacher''"
    by (auto split: if_splits)
  from rest t obtain sid where sid: "py_path node [''school'', ''id''] = Inr sid"
    and rest2: "and_then (py_path (JObj (AList.update ''schoolId'' sid kvs)) [''school'', ''name''])
       (\<lambda>school_name.
       and_then (py_setitem (JObj (AList.update ''schoolId'' sid kvs)) ''schoolName'' school_name) (\<lambda>node.
       and_then (py_delitem node ''school'') (\<lambda>node.
       Inr (Some node)))) = Inr (Some r)"
    by (auto simp del: py_path.simps simp: and_then_Inr_iff kvs)
  from sid obtain school where school: "map_of kvs ''school'' = Some school"
    "py_getitem school ''id'' = Inr sid"
    by (auto simp: and_then_Inr_iff kvs py_getitem_Inr split: option.splits)
  from rest2 obtain sname where
    sname: "py_path (JObj (AList.update ''schoolId'' sid kvs)) [''school'', ''name''] = Inr sname"
    and rest3: "py_delitem (JObj (AList.update ''schoolName'' sname (AList.update ''schoolId'' sid kvs)))
        ''school'' = Inr r"
    by (auto simp del: py_path.simps simp: and_then_Inr_iff)
  from sname school have sname': "py_getitem school ''name'' = Inr sname"
    by (auto simp: and_then_Inr_iff update_conv' split: option.splits)
  from rest3 have "r = JObj (AList.delete ''school''
           (AList.update ''schoolName'' sname (AList.update ''schoolId'' sid kvs)))"
    by (auto simp del: py_delitem.simps simp: py_delitem_Inr)
  with that n(1) kvs t school sname' show ?thesis by blast
qed

lemma get_profs_edge_None:
  "get_profs_edge edge = Inr None \<longleftrightarrow>
   (\<exists>node typename. py_getitem edge ''node'' = Inr node
      \<and> py_getitem node ''__typename'' = Inr typename \<and> typename \<noteq> JStr ''Teacher'')"
proof
  assume "get_profs_edge edge = Inr None"
  then obtain node typename where
    n: "py_getitem edge ''node'' = Inr node" "py_getitem node ''__typename'' = Inr typename"
    and rest: "(if \<not> typename = JStr ''Teacher'' then Inr None
     else
       and_then (py_path node [''school'', ''id'']) (\<lambda>school_id.
       and_then (py_setitem node ''schoolId'' school_id) (\<lambda>node.
       and_then (py_path node [''school'', ''name'']) (\<lambda>school_name.
       and_then (py_setitem node ''schoolName'' school_name) (\<lambda>node.
       and_then (py_delitem node ''school'') (\<lambda>node.
       Inr (Some node))))))) = Inr None"
    unfolding get_profs_edge_def and_then_Inr_iff by blast
  from rest have "typename \<noteq> JStr ''Teacher''"
    by (auto simp del: py_path.simps simp: and_then_Inr_iff split: if_splits)
  with n show "\<exists>node typename. py_getitem edge ''node'' = Inr node
      \<and> py_getitem node ''__typename'' = Inr typename \<and> typename \<noteq> JStr ''Teacher''"
    by blast
next
  assume "\<exists>node typename. py_getitem edge ''node'' = Inr node
      \<and> py_getitem node ''__typename'' = Inr typename \<and> typename \<noteq> JStr ''Teacher''"
  then show "get_profs_edge edge = Inr None"
    by (auto simp: get_profs_edge_def)
qed

lemma get_prof_reviews_node_Inr:
  assumes "get_prof_reviews_node prof_id edge = Inr r"
  obtains kvs where
    "py_getitem edge ''node'' = Inr (JObj kvs)"
    "map_of kvs ''thumbs'' \<noteq> None"
    "r = JObj (AList.delete ''teacherNote''
           (AList.delete ''thumbs'' (AList.update ''profId'' (JStr prof_id) kvs)))"
proof -
  from assms obtain node n1 n2 has_note where
    n: "py_getitem edge ''node'' = Inr node"
       "py_setitem node ''profId'' (JStr prof_id) = Inr n1"
       "py_delitem n1 ''thumbs'' = Inr n2"
       "py_contains ''teacherNote'' n2 = Inr has_note"
       "(if has_note then py_delitem n2 ''teacherNote'' else Inr n2) = Inr r"
    unfolding get_prof_reviews_node_def and_then_Inr_iff by blast
  from n(2) obtain kvs where kvs: "node = JObj kvs"
    "n1 = JObj (AList.update ''profId'' (JStr prof_id) kvs)"
    unfolding py_setitem_Inr by blast
  from n(3) kvs have th: "map_of kvs ''thumbs'' \<noteq> None"
    and n2: "n2 = JObj (AList.delete ''thumbs'' (AList.update ''profId'' (JStr prof_id) kvs))"
    by (auto simp: py_delitem_Inr update_conv' split: option.splits)
  have "r = JObj (AList.delete ''teacherNote''
           (AList.delete ''thumbs'' (AList.update ''profId'' (JStr prof_id) kvs)))"
  proof (cases has_note)
    case True
    with n(5) n2 show ?thesis by (auto simp del: py_delitem.simps simp: py_delitem_Inr)
  next
    case False
    with n(4) n2 have "map_of (AList.delete ''thumbs'' (AList.update ''profId'' (JStr prof_id) kvs))
        ''teacherNote'' = None"
      by simp
    then have "''teacherNote''
        \<notin> fst ` set (AList.delete ''thumbs'' (AList.update ''profId'' (JStr prof_id) kvs))"
      by (rule map_of_eq_None_iff [THEN iffD1])
    then have "AList.delete ''teacherNote''
           (AList.delete ''thumbs'' (AList.update ''profId'' (JStr prof_id) kvs))
         = AList.delete ''thumbs'' (AList.update ''profId'' (JStr prof_id) kvs)"
      by (rule delete_id)
    with False n(5) n2 show ?thesis by simp
  qed
  with that n(1) kvs(1) th show ?thesis by blast
qed

lemma get_profs_edge_record:
  assumes "get_profs_edge edge = Inr (Some r)"
  shows "py_contains ''school'' r = Inr False"
    and "py_contains ''schoolId'' r = Inr True"
    and "py_contains ''schoolName'' r = Inr True"
    and "py_getitem r ''__typename'' = Inr (JStr ''Teacher'')"
    and "py_getitem r ''schoolId''
          = and_then (py_getitem edge ''node'') (\<lambda>node. py_path node [''school'', ''id''])"
    and "py_getitem r ''schoolName''
          = and_then (py_getitem edge ''node'') (\<lambda>node. py_path node [''school'', ''name''])"
    and "k \<notin> {''school'', ''schoolId'', ''schoolName''} \<Longrightarrow>
         py_getitem r k = and_then (py_getitem edge ''node'') (\<lambda>node. py_getitem node k)"
proof -
  from assms obtain kvs school sid sname where e:
    "py_getitem edge ''node'' = Inr (JObj kvs)"
    "map_of kvs ''__typename'' = Some (JStr ''Teacher'')"
    "map_of kvs ''school'' = Some school"
    "py_getitem school ''id'' = Inr sid"
    "py_getitem school ''name'' = Inr sname"
    "r = JObj (AList.delete ''school''
           (AList.update ''schoolName'' sname (AList.update ''schoolId'' sid kvs)))"
    by (rule get_profs_edge_Some)
  have m: "map_of (AList.delete ''school''
           (AList.update ''schoolName'' sname (AList.update ''schoolId'' sid kvs)))
        = ((map_of kvs)(''schoolId'' \<mapsto> sid, ''schoolName'' \<mapsto> sname))(''school'' := None)"
    by (simp add: delete_conv' update_conv')
  show "py_contains ''school'' r = Inr False"
    and "py_contains ''schoolId'' r = Inr True"
    and "py_contains ''schoolName'' r = Inr True"
    and "py_getitem r ''__typename'' = Inr (JStr ''Teacher'')"
    by (simp_all add: e m)
  show "py_getitem r ''schoolId''
          = and_then (py_getitem edge ''node'') (\<lambda>node. py_path node [''school'', ''id''])"
    and "py_getitem r ''schoolName''
          = and_then (py_getitem edge ''node'') (\<lambda>node. py_path node [''school'', ''name''])"
    by (simp_all add: e m)
  show "py_getitem r k = and_then (py_getitem edge ''node'') (\<lambda>node. py_getitem node k)"
    if "k \<notin> {''school'', ''schoolId'', ''schoolName''}"
    using that by (simp add: e(1,6) m)
qed

lemma get_prof_reviews_node_record:
  assumes "get_prof_reviews_node prof_id edge = Inr r"
  shows "py_getitem r ''profId'' = Inr (JStr prof_id)"
    and "py_contains ''thumbs'' r = Inr False"
    and "py_contains ''teacherNote'' r = Inr False"
    and "k \<notin> {''profId'', ''thumbs'', ''teacherNote''} \<Longrightarrow>
         py_getitem r k = and_then (py_getitem edge ''node'') (\<lambda>node. py_getitem node k)"
proof -
  from assms obtain kvs where e:
    "py_getitem edge ''node'' = Inr (JObj kvs)"
    "map_of kvs ''thumbs'' \<noteq> None"
    "r = JObj (AList.delete ''teacherNote''
           (AList.delete ''thumbs'' (AList.update ''profId'' (JStr prof_id) kvs)))"
    by (rule get_prof_reviews_node_Inr)
  have m: "map_of (AList.delete ''teacherNote''
           (AList.delete ''thumbs'' (AList.update ''profId'' (JStr prof_id) kvs)))
        = ((map_of kvs)(''profId'' \<mapsto> JStr prof_id))(''thumbs'' := None, ''teacherNote'' := None)"
    by (simp add: delete_conv' update_conv')
  show "py_getitem r ''profId'' = Inr (JStr prof_id)"
    and "py_contains ''thumbs'' r = Inr False"
    and "py_contains ''teacherNote'' r = Inr False"
    by (simp_all add: e m)
  show "py_getitem r k = and_then (py_getitem edge ''node'') (\<lambda>node. py_getitem node k)"
    if "k \<notin> {''profId'', ''thumbs'', ''teacherNote''}"
    using that by (simp add: e(1,3) m)
qed

lemma get_profs_results:
  assumes "get_profs probe responses page_size pages = Some (Inr results, sent)"
    and "r \<in> set results"
  shows "\<exists>edge. get_profs_edge edge = Inr (Some r)"
proof (cases "school_valid probe = Inr True")
  case True
  with assms(1) have
    "get_profs_loop page_size pages responses (JStr []) [] 0 None [] = Some (Inr results, sent)"
    by (simp add: get_profs_def)
  from get_profs_loop_inv [OF this] assms(2) show ?thesis by auto
next
  case False
  with assms(1) have "results = []"
    by (cases "school_valid probe") (auto simp: get_profs_def split: if_splits)
  with assms(2) show ?thesis by simp
qed

lemma get_prof_reviews_results:
  assumes "get_prof_reviews responses prof_id num_reviews = Some (res, sent)"
    and "r \<in> set (task_data res)"
  shows "\<exists>node. get_prof_reviews_node prof_id node = Inr r"
  using get_prof_reviews_loop_inv [OF assms(1) [unfolded get_prof_reviews_def]] assms(2)
  by auto

section \<open>Edges that are skipped\<close>

lemma get_profs_edges_skip:
  "get_profs_edges (filter (\<lambda>e. get_profs_edge e \<noteq> Inr None) edges) results
     = get_profs_edges edges results"
proof (induction edges arbitrary: results)
  case Nil
  show ?case by simp
next
  case (Cons edge edges)
  show ?case
  proof (cases "get_profs_edge edge")
    case (Inl e)
    then show ?thesis by simp
  next
    case (Inr outcome)
    then show ?thesis by (cases outcome) (simp_all add: Cons.IH)
  qed
qed

lemma get_profs_except_j:
  assumes "py_getitem j' ''errors'' = py_getitem j ''errors''"
  shows "get_profs_except e (Some j') results = get_profs_except e (Some j) results"
  by (simp add: get_profs_except_def assms)

lemma get_profs_loop_j:
  assumes "py_getitem j' ''errors'' = py_getitem j ''errors''"
  shows "get_profs_loop page_size cap responses cur_cursor results pages_so_far (Some j') sent
     = get_profs_loop page_size cap responses cur_cursor results pages_so_far (Some j) sent"
proof (cases responses)
  case Nil
  then show ?thesis by simp
next
  case (Cons response rest)
  then show ?thesis
    by (cases response) (simp_all add: get_profs_except_j [OF assms])
qed

lemma get_profs_loop_cong_rest:
  assumes "\<And>cap c r k jv s. get_profs_loop page_size cap rest c r k jv s
              = get_profs_loop page_size cap rest' c r k jv s"
  shows "get_profs_loop page_size cap (response # rest) cur_cursor results pages_so_far j sent
     = get_profs_loop page_size cap (response # rest') cur_cursor results pages_so_far j sent"
  by (simp del: py_path.simps add: assms Let_def
      split: response.split sum.split prod.split)

lemma get_profs_loop_cong_prefix:
  fixes cap :: "int option"
  assumes "\<And>cap c r k jv s. get_profs_loop page_size cap rest c r k jv s
              = get_profs_loop page_size cap rest' c r k jv s"
  shows "get_profs_loop page_size cap (before @ rest) cur_cursor results pages_so_far j sent
     = get_profs_loop page_size cap (before @ rest') cur_cursor results pages_so_far j sent"
proof (induction before arbitrary: cap cur_cursor results pages_so_far j sent)
  case Nil
  show ?case by (simp add: assms)
next
  case (Cons response before)
  show ?case
    unfolding append_Cons by (rule get_profs_loop_cong_rest) (rule Cons.IH)
qed

lemma get_profs_loop_skip:
  assumes e: "and_then (py_path j [''data'', ''search'', ''teachers'', ''edges'']) py_iter = Inr edges"
    and e': "and_then (py_path j' [''data'', ''search'', ''teachers'', ''edges'']) py_iter
        = Inr (filter (\<lambda>e. get_profs_edge e \<noteq> Inr None) edges)"
    and p: "py_path j' [''data'', ''search'', ''teachers'', ''pageInfo'']
        = py_path j [''data'', ''search'', ''teachers'', ''pageInfo'']"
    and err: "py_getitem j' ''errors'' = py_getitem j ''errors''"
  shows "get_profs_loop page_size cap (Json j' # rest) cur_cursor results pages_so_far j0 sent
     = get_profs_loop page_size cap (Json j # rest) cur_cursor results pages_so_far j0 sent"
proof -
  from e obtain ev where ev: "py_path j [''data'', ''search'', ''teachers'', ''edges''] = Inr ev"
    "py_iter ev = Inr edges"
    unfolding and_then_Inr_iff by blast
  from e' obtain ev' where ev': "py_path j' [''data'', ''search'', ''teachers'', ''edges''] = Inr ev'"
    "py_iter ev' = Inr (filter (\<lambda>e. get_profs_edge e \<noteq> Inr None) edges)"
    unfolding and_then_Inr_iff by blast
  show ?thesis
  proof (cases "py_path j [''data'', ''search'', ''teachers'', ''pageInfo'']")
    case (Inl x)
    then show ?thesis
      using p ev ev'
      by (simp del: py_path.simps add: get_profs_except_j [OF err])
  next
    case (Inr page_info)
    then show ?thesis
      using p ev ev'
      by (simp del: py_path.simps
          add: get_profs_edges_skip get_profs_loop_j [OF err] Let_def
          split: sum.split)
  qed
qed

section \<open>A node that cannot be reshaped\<close>

lemma get_prof_reviews_nodes_stop:
  "map (get_prof_reviews_node prof_id) before = map Inr items \<Longrightarrow>
   get_prof_reviews_node prof_id bad = Inl e \<Longrightarrow>
   get_prof_reviews_nodes prof_id (before @ bad # after) results = (results @ items, Some e)"
proof (induction before arbitrary: items results)
  case Nil
  then show ?case by simp
next
  case (Cons node before)
  then obtain item items' where o: "items = item # items'"
    "get_prof_reviews_node prof_id node = Inr item"
    "map (get_prof_reviews_node prof_id) before = map Inr items'"
    by (cases items) auto
  show ?case
    using Cons.IH [OF o(3) Cons.prems(2)] o(1,2) by auto
qed

lemma get_prof_reviews_node_no_thumbs:
  assumes "py_getitem bad ''node'' = Inr (JObj kvs)" "map_of kvs ''thumbs'' = None"
  shows "get_prof_reviews_node prof_id bad = Inl KeyError"
  using assms by (simp add: get_prof_reviews_node_def update_conv')

lemma get_prof_reviews_loop_nodes_stop:
  assumes "and_then (py_path rj [''data'', ''node'', ''ratings'', ''edges'']) py_iter = Inr nodes"
    and "get_prof_reviews_nodes prof_id nodes results = (results', Some e)"
  shows "get_prof_reviews_loop prof_id num_reviews (Json rj # rest) cur_cursor results sent
     = Some (\<lparr>task_data = results', task_error = True\<rparr>,
             sent @ [\<lparr>count = min 1000 num_reviews, cursor = cur_cursor\<rparr>])"
  using assms by (simp del: py_path.simps)

lemma requests_butlast_last:
  assumes "cs \<noteq> []"
  shows "requests n (butlast cs) @ [\<lparr>count = n, cursor = last cs\<rparr>] = requests n cs"
proof -
  have "requests n (butlast cs @ [last cs])
      = requests n (butlast cs) @ [\<lparr>count = n, cursor = last cs\<rparr>]"
    by (simp add: requests_def)
  with assms show ?thesis by simp
qed

section \<open>Runs that end on a last page\<close>

lemma profs_has_next_false_stops:
  assumes "profs_has_next_false response"
  shows "\<exists>out. get_profs_loop page_size cap (response # rest) cur_cursor results pages_so_far j sent
     = Some out"
proof -
  from assms obtain jv has_more where r: "response = Json jv"
    and h: "py_path jv [''data'', ''search'', ''teachers'', ''pageInfo'', ''hasNextPage'']
        = Inr has_more"
    and f: "\<not> truthy has_more"
    by (cases response) (auto simp del: py_path.simps split: sum.splits)
  from h obtain page_info where
    pi: "py_path jv [''data'', ''search'', ''teachers'', ''pageInfo''] = Inr page_info"
    "py_getitem page_info ''hasNextPage'' = Inr has_more"
    unfolding py_path_page_info and_then_Inr_iff by blast
  show ?thesis
    using pi f
    by (auto simp del: py_path.simps simp add: r Let_def and_then_Inr_iff split: sum.split)
qed

lemma reviews_has_next_false_stops:
  assumes "reviews_has_next_false response"
  shows "\<exists>out. get_prof_reviews_loop prof_id num_reviews (response # rest) cur_cursor results sent
     = Some out"
proof -
  from assms obtain rj keep_going where r: "response = Json rj"
    and h: "py_path rj [''data'', ''node'', ''ratings'', ''pageInfo'', ''hasNextPage'']
        = Inr keep_going"
    and f: "\<not> truthy keep_going"
    by (cases response) (auto simp del: py_path.simps split: sum.splits)
  from h obtain page_info where
    pi: "py_path rj [''data'', ''node'', ''ratings'', ''pageInfo''] = Inr page_info"
    "py_getitem page_info ''hasNextPage'' = Inr keep_going"
    unfolding py_path_page_info and_then_Inr_iff by blast
  show ?thesis
    using pi f
    by (auto simp del: py_path.simps simp add: r Let_def and_then_Inr_iff
        split: sum.split prod.split option.split)
qed

lemma get_profs_loop_terminates:
  assumes "\<exists>r\<in>set responses. profs_has_next_false r"
  shows "get_profs_loop page_size cap responses cur_cursor results pages_so_far j sent \<noteq> None"
  using assms
proof (induction responses arbitrary: cur_cursor results pages_so_far j sent)
  case Nil
  then show ?case by simp
next
  case (Cons response rest)
  show ?case
  proof (cases "profs_has_next_false response")
    case True
    from profs_has_next_false_stops [OF this] show ?thesis by (metis option.distinct(1))
  next
    case False
    with Cons.prems have rest: "\<exists>r\<in>set rest. profs_has_next_false r" by simp
    show ?thesis
    proof (cases rule: get_profs_loop_cases
        [of page_size cap response rest cur_cursor results pages_so_far j sent])
      case (raise e)
      then show ?thesis by simp
    next
      case (stop edges results')
      then show ?thesis by simp
    next
      case (continue edges results' c jv)
      then show ?thesis using Cons.IH [OF rest] by simp
    qed
  qed
qed

lemma get_prof_reviews_loop_terminates:
  assumes "\<exists>r\<in>set responses. reviews_has_next_false r"
  shows "get_prof_reviews_loop prof_id num_reviews responses cur_cursor results sent \<noteq> None"
  using assms
proof (induction responses arbitrary: cur_cursor results sent)
  case Nil
  then show ?case by simp
next
  case (Cons response rest)
  show ?case
  proof (cases "reviews_has_next_false response")
    case True
    from reviews_has_next_false_stops [OF this] show ?thesis by (metis option.distinct(1))
  next
    case False
    with Cons.prems have rest: "\<exists>r\<in>set rest. reviews_has_next_false r" by simp
    show ?thesis
    proof (cases rule: get_prof_reviews_loop_cases
        [of prof_id num_reviews response rest cur_cursor results sent])
      case (stop nodes results' e flag)
      then show ?thesis by simp
    next
      case (continue nodes results' c)
      then show ?thesis using Cons.IH [OF rest] by simp
    qed
  qed
qed

lemma get_profs_pages_last:
  assumes v: "school_valid probe = Inr True"
    and y: "list_all2 profs_page_yields docs (pages @ [(outcomes, has_more, end_cursor)])"
    and t: "\<forall>p\<in>set pages. truthy (fst (snd p))"
    and f: "\<not> truthy has_more"
    and c: "cap = None \<or> int (length pages) < the cap"
  shows "get_profs probe (map Json docs @ rest) page_size cap
     = Some (Inr (concat (map (\<lambda>p. appended (fst p)) pages) @ appended outcomes),
             requests page_size (JStr [] # map (\<lambda>p. snd (snd p)) pages))"
proof -
  let ?cursors = "JStr [] # map (\<lambda>p. snd (snd p)) pages"
  from y obtain docs' doc where d: "docs = docs' @ [doc]"
    "list_all2 profs_page_yields docs' pages"
    "profs_page_yields doc (outcomes, has_more, end_cursor)"
    by (auto simp del: profs_page_yields.simps simp: list_all2_append2 list_all2_Cons2)
  from c have c': "cap = None \<or> 0 + int (length pages) < the cap" by simp
  have "get_profs probe (map Json docs @ rest) page_size cap
      = get_profs_loop page_size cap (Json doc # rest) (last ?cursors)
          (concat (map (\<lambda>p. appended (fst p)) pages)) (int (length pages))
          (last (None # map Some docs')) (requests page_size (butlast ?cursors))"
    using get_profs_loop_pages [OF d(2) t c', of page_size "Json doc # rest" "JStr []" "[]" None "[]"]
    by (simp del: get_profs_loop.simps last.simps butlast.simps add: get_profs_def v d(1))
  also have "\<dots> = Some (Inr (concat (map (\<lambda>p. appended (fst p)) pages) @ appended outcomes),
       requests page_size (butlast ?cursors) @ [\<lparr>count = page_size, cursor = last ?cursors\<rparr>])"
    using f by (simp del: get_profs_loop.simps last.simps butlast.simps
        add: get_profs_loop_page [OF d(3)])
  also have "requests page_size (butlast ?cursors) @ [\<lparr>count = page_size, cursor = last ?cursors\<rparr>]
      = requests page_size ?cursors"
    by (rule requests_butlast_last) simp
  finally show ?thesis .
qed

lemma get_prof_reviews_pages_last:
  assumes y: "list_all2 (reviews_page_yields prof_id) docs (pages @ [(items, keep_going, end_cursor)])"
    and t: "\<forall>p\<in>set pages. truthy (fst (snd p))"
    and f: "\<not> truthy keep_going"
  shows "get_prof_reviews (map Json docs @ rest) prof_id num_reviews
     = Some (\<lparr>task_data = concat (map fst pages) @ items, task_error = False\<rparr>,
             requests (min 1000 num_reviews) (JStr [] # map (\<lambda>p. snd (snd p)) pages))"
proof -
  let ?cursors = "JStr [] # map (\<lambda>p. snd (snd p)) pages"
  let ?n = "min 1000 num_reviews"
  from y obtain docs' doc where d: "docs = docs' @ [doc]"
    "list_all2 (reviews_page_yields prof_id) docs' pages"
    "reviews_page_yields prof_id doc (items, keep_going, end_cursor)"
    by (auto simp del: reviews_page_yields.simps simp: list_all2_append2 list_all2_Cons2)
  have "get_prof_reviews (map Json docs @ rest) prof_id num_reviews
      = get_prof_reviews_loop prof_id num_reviews (Json doc # rest) (last ?cursors)
          (concat (map fst pages)) (requests ?n (butlast ?cursors))"
    using get_prof_reviews_loop_pages [OF d(2) t, of num_reviews "Json doc # rest" "JStr []" "[]" "[]"]
    by (simp del: get_prof_reviews_loop.simps last.simps butlast.simps
        add: get_prof_reviews_def d(1))
  also have "\<dots> = Some (\<lparr>task_data = concat (map fst pages) @ items, task_error = False\<rparr>,
       requests ?n (butlast ?cursors) @ [\<lparr>count = ?n, cursor = last ?cursors\<rparr>])"
    using f by (simp del: get_prof_reviews_loop.simps last.simps butlast.simps
        add: get_prof_reviews_loop_page [OF d(3)])
  also have "requests ?n (butlast ?cursors) @ [\<lparr>count = ?n, cursor = last ?cursors\<rparr>]
      = requests ?n ?cursors"
    by (rule requests_butlast_last) simp
  finally show ?thesis .
qed

section \<open>Runs that end on a response that cannot be read\<close>

lemma get_prof_reviews_nodes_acc:
  "get_prof_reviews_nodes prof_id nodes results
     = (results @ fst (get_prof_reviews_nodes prof_id nodes []),
        snd (get_prof_reviews_nodes prof_id nodes []))"
proof (induction nodes arbitrary: results)
  case Nil
  show ?case by simp
next
  case (Cons node nodes)
  show ?case
  proof (cases "get_prof_reviews_node prof_id node")
    case (Inl e)
    then show ?thesis by simp
  next
    case (Inr item)
    then show ?thesis
      using Cons.IH [of "results @ [item]"] Cons.IH [of "[item]"] by simp
  qed
qed

lemma get_prof_reviews_loop_fails:
  assumes "reviews_page_fails prof_id response items"
  shows "get_prof_reviews_loop prof_id num_reviews (response # rest) cur_cursor results sent
     = Some (\<lparr>task_data = results @ items, task_error = True\<rparr>,
             sent @ [\<lparr>count = min 1000 num_reviews, cursor = cur_cursor\<rparr>])"
proof (cases response)
  case (PostRaises e)
  with assms show ?thesis by simp
next
  case (JsonRaises e)
  with assms show ?thesis by simp
next
  case (Json rj)
  show ?thesis
  proof (cases "and_then (py_path rj [''data'', ''node'', ''ratings'', ''edges'']) py_iter")
    case (Inl e)
    with assms Json show ?thesis by (simp del: py_path.simps)
  next
    case (Inr nodes)
    obtain appended_items e where n: "get_prof_reviews_nodes prof_id nodes [] = (appended_items, e)"
      by (cases "get_prof_reviews_nodes prof_id nodes []") auto
    then have n': "get_prof_reviews_nodes prof_id nodes results = (results @ appended_items, e)"
      using get_prof_reviews_nodes_acc [of prof_id nodes results] by simp
    show ?thesis
    proof (cases e)
      case None
      with assms Json Inr n n' show ?thesis
        by (simp del: py_path.simps split: sum.splits)
    next
      case (Some x)
      with assms Json Inr n n' show ?thesis
        by (simp del: py_path.simps)
    qed
  qed
qed

text \<open>
  A document in which one of the five keys of the \<^verbatim>\<open>try\<close> block is missing from the dict
  it is read from.
\<close>

lemma py_path_append:
  "py_path v (ks @ ks') = and_then (py_path v ks) (\<lambda>v'. py_path v' ks')"
proof (induction ks arbitrary: v)
  case Nil
  show ?case by simp
next
  case (Cons k ks)
  show ?case by (cases "py_getitem v k") (simp_all add: Cons)
qed

lemma py_path_missing:
  assumes "py_path j pre = Inr v" and "py_getitem v k = Inl KeyError"
  shows "py_path j (pre @ k # post) = Inl KeyError"
  using assms by (simp add: py_path_append)

lemma profs_malformed_missing_key:
  assumes ks: "ks \<in> set [[''data''], [''data'', ''search''], [''data'', ''search'', ''teachers''],
                  [''data'', ''search'', ''teachers'', ''pageInfo''],
                  [''data'', ''search'', ''teachers'', ''edges'']]"
    and v: "py_path j (butlast ks) = Inr v"
    and k: "py_getitem v (last ks) = Inl KeyError"
  shows "profs_malformed (Json j)"
proof -
  let ?P = "py_path j [''data'', ''search'', ''teachers'', ''pageInfo'']"
  let ?E = "py_path j [''data'', ''search'', ''teachers'', ''edges'']"
  have P: "?P = Inl KeyError \<Longrightarrow> ?thesis"
    by (simp del: py_path.simps)
  from ks consider "ks = [''data'']" | "ks = [''data'', ''search'']"
    | "ks = [''data'', ''search'', ''teachers'']"
    | "ks = [''data'', ''search'', ''teachers'', ''pageInfo'']"
    | "ks = [''data'', ''search'', ''teachers'', ''edges'']"
    by auto
  then show ?thesis
  proof cases
    case 1
    with v k have "py_path j [] = Inr v" "py_getitem v ''data'' = Inl KeyError"
      by simp_all
    from py_path_missing [OF this, of "[''search'', ''teachers'', ''pageInfo'']"]
    show ?thesis by (intro P) simp
  next
    case 2
    with v k have "py_path j [''data''] = Inr v" "py_getitem v ''search'' = Inl KeyError"
      by simp_all
    from py_path_missing [OF this, of "[''teachers'', ''pageInfo'']"]
    show ?thesis by (intro P) simp
  next
    case 3
    with v k have "py_path j [''data'', ''search''] = Inr v"
      "py_getitem v ''teachers'' = Inl KeyError"
      by simp_all
    from py_path_missing [OF this, of "[''pageInfo'']"]
    show ?thesis by (intro P) simp
  next
    case 4
    with v k have "py_path j [''data'', ''search'', ''teachers''] = Inr v"
      "py_getitem v ''pageInfo'' = Inl KeyError"
      by simp_all
    from py_path_missing [OF this, of "[]"]
    show ?thesis by (intro P) simp
  next
    case 5
    with v k have t: "py_path j [''data'', ''search'', ''teachers''] = Inr v"
      and e: "py_getitem v ''edges'' = Inl KeyError"
      by simp_all
    from py_path_missing [OF t e, of "[]"] have E: "?E = Inl KeyError"
      by simp
    from e obtain kvs where obj: "v = JObj kvs"
      by (cases v) simp_all
    have "?P = py_getitem v ''pageInfo''"
      using py_path_append [of j "[''data'', ''search'', ''teachers'']" "[''pageInfo'']"] t
      by (cases "py_getitem v ''pageInfo''") simp_all
    then have "?P = Inl KeyError \<or> (\<exists>page_info. ?P = Inr page_info)"
      unfolding obj by (cases "map_of kvs ''pageInfo''") simp_all
    then show ?thesis
    proof
      assume "?P = Inl KeyError"
      then show ?thesis by (rule P)
    next
      assume "\<exists>page_info. ?P = Inr page_info"
      then obtain page_info where "?P = Inr page_info" ..
      with E show ?thesis by (simp del: py_path.simps)
    qed
  qed
qed

lemma get_profs_loop_malformed:
  assumes "profs_malformed response"
  shows "get_profs_loop page_size cap (response # rest) cur_cursor results pages_so_far j sent
     = Some (Inr results, sent @ [\<lparr>count = page_size, cursor = cur_cursor\<rparr>])"
proof (cases response)
  case (PostRaises e)
  with assms show ?thesis by simp
next
  case (JsonRaises e)
  with assms show ?thesis by (auto simp: get_profs_except_def)
next
  case (Json jv)
  from assms Json have
    "and_then (py_path jv [''data'', ''search'', ''teachers'', ''pageInfo''])
        (\<lambda>page_info. py_path jv [''data'', ''search'', ''teachers'', ''edges'']) = Inl KeyError"
    by (simp del: py_path.simps)
  then have "and_then (py_path jv [''data'', ''search'', ''teachers'', ''pageInfo''])
                  (\<lambda>page_info.
                and_then (py_path jv [''data'', ''search'', ''teachers'', ''edges''])
                  (\<lambda>edges. Inr (page_info, edges))) = Inl KeyError"
    by (cases "py_path jv [''data'', ''search'', ''teachers'', ''pageInfo'']";
        cases "py_path jv [''data'', ''search'', ''teachers'', ''edges'']")
      (simp_all del: py_path.simps)
  then show ?thesis
    using Json by (simp del: py_path.simps add: get_profs_except_def)
qed

lemma get_prof_reviews_pages_fail:
  assumes y: "list_all2 (reviews_page_yields prof_id) docs pages"
    and t: "\<forall>p\<in>set pages. truthy (fst (snd p))"
    and f: "reviews_page_fails prof_id bad items"
  shows "get_prof_reviews (map Json docs @ bad # rest) prof_id num_reviews
     = Some (\<lparr>task_data = concat (map fst pages) @ items, task_error = True\<rparr>,
             requests (min 1000 num_reviews) (JStr [] # map (\<lambda>p. snd (snd p)) pages))"
proof -
  let ?cursors = "JStr [] # map (\<lambda>p. snd (snd p)) pages"
  let ?n = "min 1000 num_reviews"
  have "get_prof_reviews (map Json docs @ bad # rest) prof_id num_reviews
      = Some (\<lparr>task_data = concat (map fst pages) @ items, task_error = True\<rparr>,
         requests ?n (butlast ?cursors) @ [\<lparr>count = ?n, cursor = last ?cursors\<rparr>])"
    unfolding get_prof_reviews_def get_prof_reviews_loop_pages [OF y t]
      get_prof_reviews_loop_fails [OF f]
    by (simp del: last.simps butlast.simps)
  also have "requests ?n (butlast ?cursors) @ [\<lparr>count = ?n, cursor = last ?cursors\<rparr>]
      = requests ?n ?cursors"
    by (rule requests_butlast_last) simp
  finally show ?thesis .
qed

lemma get_profs_pages_malformed:
  assumes v: "school_valid probe = Inr True"
    and y: "list_all2 profs_page_yields docs pages"
    and t: "\<forall>p\<in>set pages. truthy (fst (snd p))"
    and c: "cap = None \<or> int (length pages) < the cap"
    and f: "profs_malformed bad"
  shows "get_profs probe (map Json docs @ bad # rest) page_size cap
     = Some (Inr (concat (map (\<lambda>p. appended (fst p)) pages)),
             requests page_size (JStr [] # map (\<lambda>p. snd (snd p)) pages))"
proof -
  let ?cursors = "JStr [] # map (\<lambda>p. snd (snd p)) pages"
  from c have c': "cap = None \<or> 0 + int (length pages) < the cap" by simp
  have "get_profs probe (map Json docs @ bad # rest) page_size cap
      = Some (Inr (concat (map (\<lambda>p. appended (fst p)) pages)),
         requests page_size (butlast ?cursors) @ [\<lparr>count = page_size, cursor = last ?cursors\<rparr>])"
    using get_profs_loop_pages [OF y t c', of page_size "bad # rest" "JStr []" "[]" None "[]"]
    by (simp del: get_profs_loop.simps last.simps butlast.simps
        add: get_profs_def v get_profs_loop_malformed [OF f])
  also have "requests page_size (butlast ?cursors) @ [\<lparr>count = page_size, cursor = last ?cursors\<rparr>]
      = requests page_size ?cursors"
    by (rule requests_butlast_last) simp
  finally show ?thesis .
qed

section \<open>How the dispatchers collect\<close>

lemma get_all_prof_reviews_collect_eq:
  "get_all_prof_reviews_collect run i futures results errors =
     \<lparr>coll_data = results @ concat (map returned_data (outcomes_from run i futures)),
      coll_errors = errors @ map fst (filter (\<lambda>p. unit_failed (snd p))
                                      (zip (map fst futures) (outcomes_from run i futures)))\<rparr>"
proof (induction futures arbitrary: i results errors)
  case Nil
  show ?case by simp
next
  case (Cons future futures)
  obtain pid n where f: "future = (pid, n)" by (cases future) auto
  show ?case
    by (cases "run i pid n") (simp_all add: f Cons.IH)
qed

lemma outcomes_from_eq:
  "outcomes_from run i futures =
     map (\<lambda>k. run (i + k) (fst (futures ! k)) (snd (futures ! k))) [0..<length futures]"
proof (induction futures arbitrary: i)
  case Nil
  show ?case by simp
next
  case (Cons future futures)
  obtain pid n where f: "future = (pid, n)" by (cases future) auto
  have "[0..<length (future # futures)] = 0 # map Suc [0..<length futures]"
    by (simp add: upt_conv_Cons map_Suc_upt del: upt_Suc)
  then show ?case
    by (simp add: f Cons.IH comp_def del: upt_Suc)
qed

lemma outcomes_from_zip:
  assumes "length prof_ids \<le> length prof_num_reviews"
  shows "outcomes_from run 0 (zip prof_ids prof_num_reviews)
     = unit_outcomes run prof_ids prof_num_reviews"
  using assms by (simp add: outcomes_from_eq unit_outcomes_def min_def)

lemma length_filter_zip_snd:
  "length xs = length ys \<Longrightarrow>
   length (filter (\<lambda>p. P (snd p)) (zip xs ys)) = length (filter P ys)"
  by (induction xs ys rule: list_induct2) auto

lemma all_profs_collect_eq:
  "all_profs_collect run futures result = result @ concat (map (\<lambda>i. returned_profs (run i)) futures)"
proof (induction futures arbitrary: result)
  case Nil
  show ?case by simp
next
  case (Cons i futures)
  show ?case by (cases "run i") (simp_all add: Cons.IH)
qed

section \<open>The windows of the batch loop\<close>

lemma py_slice_nonneg:
  assumes "0 \<le> start" "start \<le> stop"
  shows "py_slice xs start stop = take (nat (stop - start)) (drop (nat start) xs)"
proof (cases "start \<le> int (length xs)")
  case False
  with assms show ?thesis by (simp add: py_slice_def Let_def min_def)
next
  case s: True
  show ?thesis
  proof (cases "stop \<le> int (length xs)")
    case True
    with assms s show ?thesis by (simp add: py_slice_def Let_def min_def)
  next
    case False
    with assms s have "length (drop (nat start) xs) \<le> nat (stop - start)"
      and "length (drop (nat start) xs) \<le> nat (int (length xs) - start)"
      by auto
    with assms s False show ?thesis by (simp add: py_slice_def Let_def min_def)
  qed
qed

lemma outcomes_from_const:
  "outcomes_from (\<lambda>i. unit) i futures = map (\<lambda>(pid, n). unit pid n) futures"
  by (induction futures arbitrary: i) auto

lemma work_errors_zip:
  "map fst (filter (\<lambda>p. unit_failed (snd p))
      (zip (map fst futures) (map (\<lambda>(pid, n). unit pid n) futures)))
   = work_errors unit futures"
  by (induction futures) (auto simp: work_errors_def)

lemma work_data_map:
  "concat (map returned_data (map (\<lambda>(pid, n). unit pid n) futures)) = work_data unit futures"
  by (induction futures) (auto simp: work_data_def)

lemma get_all_prof_reviews_const:
  "get_all_prof_reviews (\<lambda>i. unit) prof_ids prof_num_reviews =
     (if length prof_num_reviews < length prof_ids then Inl IndexError
      else Inr \<lparr>coll_data = work_data unit (zip prof_ids prof_num_reviews),
                coll_errors = work_errors unit (zip prof_ids prof_num_reviews)\<rparr>)"
  unfolding get_all_prof_reviews_def get_all_prof_reviews_collect_eq outcomes_from_const
    work_errors_zip work_data_map
  by simp

lemma work_data_take_drop:
  "work_data unit (take b work) @ work_data unit (drop b work) = work_data unit work"
proof -
  have "work_data unit (take b work @ drop b work)
      = work_data unit (take b work) @ work_data unit (drop b work)"
    unfolding work_data_def by (simp only: map_append concat_append)
  then show ?thesis by simp
qed

lemma work_errors_take_drop:
  "work_errors unit (take b work) @ work_errors unit (drop b work) = work_errors unit work"
proof -
  have "work_errors unit (take b work @ drop b work)
      = work_errors unit (take b work) @ work_errors unit (drop b work)"
    unfolding work_errors_def by (simp only: filter_append map_append)
  then show ?thesis by simp
qed

lemma all_prof_reviews_loop_const:
  assumes B: "0 < batch_size" and c: "0 \<le> batch_count"
  shows "all_prof_reviews_loop (\<lambda>batch i. unit) batch_size prof_ids prof_num_reviews
           batch_count errors total_data =
     Some (if length (drop (nat (batch_count * batch_size)) prof_num_reviews)
                < length (drop (nat (batch_count * batch_size)) prof_ids)
           then Inl IndexError
           else Inr (errors @ work_errors unit
                         (zip (drop (nat (batch_count * batch_size)) prof_ids)
                              (drop (nat (batch_count * batch_size)) prof_num_reviews)),
                     total_data @ work_data unit
                         (zip (drop (nat (batch_count * batch_size)) prof_ids)
                              (drop (nat (batch_count * batch_size)) prof_num_reviews))))"
  using c
proof (induction "length prof_ids - nat (batch_count * batch_size)"
    arbitrary: batch_count errors total_data rule: less_induct)
  case less
  let ?k = "nat (batch_count * batch_size)"
  let ?b = "nat batch_size"
  let ?I = "drop ?k prof_ids"
  let ?N = "drop ?k prof_num_reviews"
  from B have nz: "batch_size \<noteq> 0" by simp
  from B less.prems have start: "0 \<le> batch_count * batch_size"
    and stop: "batch_count * batch_size \<le> (batch_count + 1) * batch_size"
    and width: "(batch_count + 1) * batch_size - batch_count * batch_size = batch_size"
    by (simp_all add: algebra_simps)
  have ids: "py_slice prof_ids (batch_count * batch_size) ((batch_count + 1) * batch_size)
      = take ?b ?I"
    and nums: "py_slice prof_num_reviews (batch_count * batch_size) ((batch_count + 1) * batch_size)
      = take ?b ?N"
    by (simp_all add: py_slice_nonneg [OF start stop] width)
  show ?case
  proof (cases "batch_count * batch_size < int (length prof_ids)")
    case False
    then have e: "?I = []" using start by simp
    show ?thesis
      by (subst all_prof_reviews_loop.simps)
        (simp add: nz ids nums e False get_all_prof_reviews_const work_data_def work_errors_def
          Let_def)
  next
    case True
    then have k: "?k < length prof_ids" using start by simp
    show ?thesis
    proof (cases "length (take ?b ?N) < length (take ?b ?I)")
      case short: True
      then have "length ?N < length ?I" by (simp add: min_def split: if_splits)
      with short show ?thesis
        by (subst all_prof_reviews_loop.simps)
          (simp add: nz ids nums get_all_prof_reviews_const Let_def del: length_take length_drop)
    next
      case enough: False
      from B less.prems have k': "nat ((batch_count + 1) * batch_size) = ?k + ?b"
        by (simp add: algebra_simps nat_add_distrib)
      from B have b: "0 < ?b" by simp
      from k b have dec: "length prof_ids - nat ((batch_count + 1) * batch_size)
          < length prof_ids - ?k"
        unfolding k' by simp
      from less.prems have c': "0 \<le> batch_count + 1" by simp
      have dI: "drop (nat ((batch_count + 1) * batch_size)) prof_ids = drop ?b ?I"
        and dN: "drop (nat ((batch_count + 1) * batch_size)) prof_num_reviews = drop ?b ?N"
        unfolding k' by (simp_all add: add.commute)
      have "\<not> min (length ?N) ?b < min (length ?I) ?b"
        using enough unfolding length_take by assumption
      then have "length ?N - ?b < length ?I - ?b \<longleftrightarrow> length ?N < length ?I"
        by arith
      then have cond: "length (drop ?b ?N) < length (drop ?b ?I) \<longleftrightarrow> length ?N < length ?I"
        unfolding length_drop [of ?b ?N] length_drop [of ?b ?I] by assumption
      have z1: "zip (take ?b ?I) (take ?b ?N) = take ?b (zip ?I ?N)"
        by (simp add: take_zip)
      have z2: "zip (drop ?b ?I) (drop ?b ?N) = drop ?b (zip ?I ?N)"
        by (simp add: drop_zip)
      have "all_prof_reviews_loop (\<lambda>batch i. unit) batch_size prof_ids prof_num_reviews
           batch_count errors total_data
        = all_prof_reviews_loop (\<lambda>batch i. unit) batch_size prof_ids prof_num_reviews
           (batch_count + 1) (errors @ work_errors unit (take ?b (zip ?I ?N)))
           (total_data @ work_data unit (take ?b (zip ?I ?N)))"
        using enough True
        by (subst all_prof_reviews_loop.simps)
          (simp add: nz ids nums get_all_prof_reviews_const Let_def z1
            del: length_take length_drop)
      also have "\<dots> = Some (if length (drop ?b ?N) < length (drop ?b ?I)
           then Inl IndexError
           else Inr ((errors @ work_errors unit (take ?b (zip ?I ?N)))
                       @ work_errors unit (drop ?b (zip ?I ?N)),
                     (total_data @ work_data unit (take ?b (zip ?I ?N)))
                       @ work_data unit (drop ?b (zip ?I ?N))))"
        using less.hyps [OF dec c'] unfolding dI dN z2 .
      finally show ?thesis
        by (simp only: cond append_assoc work_errors_take_drop work_data_take_drop)
    qed
  qed
qed

lemma all_prof_reviews_const:
  assumes "0 < batch_size"
  shows "all_prof_reviews data_frame (\<lambda>batch i. unit) prof_ids prof_num_reviews batch_size =
     Some (if length prof_num_reviews < length prof_ids then Inl IndexError
           else Inr (work_errors unit (zip prof_ids prof_num_reviews),
                     unique (data_frame (work_data unit (zip prof_ids prof_num_reviews)))))"
  using all_prof_reviews_loop_const [OF assms, of 0 unit prof_ids prof_num_reviews "[]" "[]"]
  by (simp add: all_prof_reviews_def)

section \<open>A batch size below one\<close>

lemma all_prof_reviews_zero:
  "all_prof_reviews data_frame run prof_ids prof_num_reviews 0 = Some (Inl ZeroDivisionError)"
  by (subst all_prof_reviews_def, subst all_prof_reviews_loop.simps) simp

lemma all_prof_reviews_loop_negative_Some:
  assumes "all_prof_reviews_loop run batch_size prof_ids prof_num_reviews batch_count errors total_data
      = Some y"
  shows "batch_size < 0 \<and> 0 \<le> batch_count \<and> length prof_num_reviews = length prof_ids
      \<longrightarrow> prof_ids = []"
  apply (rule all_prof_reviews_loop.raw_induct
      [where P = "\<lambda>run batch_size prof_ids prof_num_reviews batch_count errors total_data y.
                   batch_size < 0 \<and> 0 \<le> batch_count \<and> length prof_num_reviews = length prof_ids
                   \<longrightarrow> prof_ids = []", OF _ assms])
  subgoal premises prems for loop run batch_size prof_ids prof_num_reviews batch_count errors total_data y
  proof (intro impI)
    assume a: "batch_size < 0 \<and> 0 \<le> batch_count \<and> length prof_num_reviews = length prof_ids"
    show "prof_ids = []"
    proof (rule ccontr)
      assume ne: "prof_ids \<noteq> []"
      from a have "batch_count * batch_size \<le> 0"
        by (simp add: mult_nonneg_nonpos)
      moreover from ne have "0 < int (length prof_ids)"
        by simp
      ultimately have k: "batch_count * batch_size < int (length prof_ids)"
        by linarith
      from a have l: "length (py_slice prof_num_reviews (batch_count * batch_size)
            ((batch_count + 1) * batch_size))
          = length (py_slice prof_ids (batch_count * batch_size) ((batch_count + 1) * batch_size))"
        by (simp add: py_slice_def Let_def)
      from prems(2) a k l obtain errors' total' where
        "loop run batch_size prof_ids prof_num_reviews (batch_count + 1) errors' total' = Some y"
        by (simp add: get_all_prof_reviews_def Let_def)
      from prems(1) [OF this] a ne show False by simp
    qed
  qed
  done

lemma all_prof_reviews_negative:
  assumes "batch_size < 0" "prof_ids \<noteq> []" "length prof_num_reviews = length prof_ids"
  shows "all_prof_reviews data_frame run prof_ids prof_num_reviews batch_size = None"
proof -
  have "all_prof_reviews_loop run batch_size prof_ids prof_num_reviews 0 [] [] = None"
  proof (cases "all_prof_reviews_loop run batch_size prof_ids prof_num_reviews 0 [] []")
    case None
    then show ?thesis .
  next
    case (Some y)
    from all_prof_reviews_loop_negative_Some [OF this] assms show ?thesis by simp
  qed
  then show ?thesis by (simp add: all_prof_reviews_def)
qed

section \<open>The concrete documents, read\<close>

lemma valid_school_page_valid: "school_valid (Inr valid_school_page) = Inr True"
  by (simp add: valid_school_page_def not_found_marker_def no_ratings_marker_def)

lemma get_profs_edge_teacher: "get_profs_edge (JObj [(''node'', teacher name)]) = Inr (Some (teacher_record name))"
  by (simp add: get_profs_edge_def teacher_def teacher_record_def)

lemma get_profs_edge_campus: "get_profs_edge (JObj [(''node'', campus)]) = Inr None"
  by (simp add: get_profs_edge_def campus_def)

lemma get_prof_reviews_node_review:
  "get_prof_reviews_node prof_id (JObj [(''node'', review c)]) = Inr (review_record prof_id c)"
  by (simp add: get_prof_reviews_node_def review_def review_record_def)

lemma get_prof_reviews_node_without_thumbs:
  "get_prof_reviews_node prof_id (JObj [(''node'', review_without_thumbs c)]) = Inl KeyError"
  by (simp add: get_prof_reviews_node_def review_without_thumbs_def)

lemma profs_doc_yields:
  "map get_profs_edge (map (\<lambda>n. JObj [(''node'', n)]) nodes) = map Inr outcomes \<Longrightarrow>
   profs_page_yields (profs_doc nodes has_next end_cursor) (outcomes, has_next, end_cursor)"
  by (simp add: profs_doc_def)

lemma reviews_doc_yields:
  "map (get_prof_reviews_node prof_id) (map (\<lambda>n. JObj [(''node'', n)]) nodes) = map Inr items \<Longrightarrow>
   reviews_page_yields prof_id (reviews_doc nodes has_next end_cursor) (items, has_next, end_cursor)"
  by (simp add: reviews_doc_def)

lemma profs_two_pages:
  "get_profs (Inr valid_school_page)
     [Json (profs_doc [teacher ''Ada'', campus] (JBool True) (JStr ''c1'')),
      Json (profs_doc [teacher ''Grace''] (JBool False) JNull)] 1000 None
   = Some (Inr [teacher_record ''Ada'', teacher_record ''Grace''],
           requests 1000 [JStr [], JStr ''c1''])"
  by (simp del: school_valid.simps
      add: get_profs_def valid_school_page_valid profs_doc_def get_profs_edge_teacher
        get_profs_edge_campus requests_def)

lemma reviews_three_pages:
  "get_prof_reviews
     [Json (reviews_doc [review ''A'', review ''B''] (JBool True) (JStr ''c1'')),
      Json (reviews_doc [review ''C'', review ''D''] (JBool True) (JStr ''c2'')),
      Json (reviews_doc [review ''E''] (JBool False) (JStr ''c3''))] ''p'' 2
   = Some (\<lparr>task_data = map (review_record ''p'') [''A'', ''B'', ''C'', ''D'', ''E''],
             task_error = False\<rparr>,
           requests 2 [JStr [], JStr ''c1'', JStr ''c2''])"
  by (simp add: get_prof_reviews_def reviews_doc_def get_prof_reviews_node_review requests_def)

text \<open>
  What \<^verbatim>\<open>get_profs\<close> does when the post raises, and when the first body is one that
  \<^verbatim>\<open>requests\<close> itself rejects: the exception leaves the function.
\<close>

lemma get_profs_transport_error:
  "get_profs_loop page_size cap (PostRaises e # rest) cur_cursor results pages_so_far j sent
     = Some (Inl e, sent @ [\<lparr>count = page_size, cursor = cur_cursor\<rparr>])"
  by simp

lemma get_profs_requests_decode_error:
  "get_profs (Inr valid_school_page) (JsonRaises RequestsJSONDecodeError # rest) page_size cap
     = Some (Inl UnboundLocalError, [\<lparr>count = page_size, cursor = JStr []\<rparr>])"
  by (simp del: school_valid.simps
      add: get_profs_def valid_school_page_valid get_profs_except_def)


text \<open>
  The third \<^verbatim>\<open>except\<close> clause prints \<^verbatim>\<open>j\<close>: should \<^verbatim>\<open>json()\<close> raise a \<open>KeyError\<close> before
  any document was read, the clause raises in its turn.
\<close>

lemma get_profs_key_error_unbound:
  "get_profs (Inr valid_school_page) (JsonRaises KeyError # rest) page_size cap
     = Some (Inl UnboundLocalError, [\<lparr>count = page_size, cursor = JStr []\<rparr>])"
  by (simp del: school_valid.simps
      add: get_profs_def valid_school_page_valid get_profs_except_def)

text \<open>
  No clause guards the lookups after the \<^verbatim>\<open>try\<close> block: a page without
  \<^verbatim>\<open>hasNextPage\<close> raises out of \<^verbatim>\<open>get_profs\<close>, and the records of the pages before it
  are not returned.
\<close>

lemma get_profs_unguarded_key:
  "get_profs (Inr valid_school_page)
     [Json (profs_doc [teacher ''Ada''] (JBool True) (JStr ''c1'')),
      Json (JObj [(''data'', JObj [(''search'', JObj [(''teachers'',
         JObj [(''pageInfo'', JObj [(''endCursor'', JNull)]), (''edges'', JArr [])])])])])]
     1000 None
   = Some (Inl KeyError, requests 1000 [JStr [], JStr ''c1''])"
  by (simp del: school_valid.simps
      add: get_profs_def valid_school_page_valid profs_doc_def get_profs_edge_teacher
        requests_def)
section \<open>Deduplication\<close>

lemma set_unique: "set (unique rows) = set rows"
  by (induction rows rule: unique.induct) auto

lemma distinct_unique: "distinct (unique rows)"
  by (induction rows rule: unique.induct) (auto simp: set_unique)

lemma unique_distinct: "distinct rows \<Longrightarrow> unique rows = rows"
proof (induction rows)
  case Nil
  then show ?case by simp
next
  case (Cons row rows)
  then have "filter (\<lambda>r. r \<noteq> row) rows = rows"
    by (auto intro: filter_True)
  with Cons show ?case by simp
qed

text \<open>
  C5. The table that a collector writes is \<^verbatim>\<open>unique()\<close> of the rows of the records it has
  accumulated, and deduplication is idempotent. For \<^verbatim>\<open>all_prof_reviews\<close>, whenever the loop
  over the batches ends with the records \<open>total_data\<close>, and for \<^verbatim>\<open>all_profs\<close> with \<^verbatim>\<open>save\<close>
  on the records it returns: the table has no two equal rows (rows are compared as
  wholes), every row of the records is in it and no other (so two rows that differ in a
  field are both kept), and a second \<^verbatim>\<open>unique()\<close> changes neither its row count nor its row
  set. When the outcome of a unit depends on its id and hint only, \<^verbatim>\<open>all_prof_reviews\<close>
  with a batch size of at least 1 and a hint for every id writes each row of the data of
  its units once, however often a unit was run. The last four facts say the same of
  \<open>unique\<close> on any rows.
\<close>

theorem dedup_idempotent:
  "(all_prof_reviews_loop run batch_size prof_ids prof_num_reviews 0 [] []
        = Some (Inr (errors, total_data)) \<longrightarrow>
      (\<exists>table.
         all_prof_reviews data_frame run prof_ids prof_num_reviews batch_size
           = Some (Inr (errors, table))
         \<and> distinct table
         \<and> set table = set (data_frame total_data)
         \<and> length (unique table) = length table
         \<and> set (unique table) = set table))
   \<and> (\<exists>table.
         snd (all_profs data_frame' run' start stop True) = Some table
         \<and> distinct table
         \<and> set table = set (data_frame' (fst (all_profs data_frame' run' start stop True)))
         \<and> length (unique table) = length table
         \<and> set (unique table) = set table)
   \<and> ((\<forall>batch i. run batch i = unit) \<and> 0 < batch_size
        \<and> length prof_ids \<le> length prof_num_reviews \<longrightarrow>
      (\<exists>table.
         all_prof_reviews data_frame run prof_ids prof_num_reviews batch_size
           = Some (Inr (work_errors unit (zip prof_ids prof_num_reviews), table))
         \<and> distinct table
         \<and> set table = set (data_frame (work_data unit (zip prof_ids prof_num_reviews)))))
   \<and> length (unique (unique rows)) = length (unique rows)
   \<and> set (unique (unique rows)) = set (unique rows)
   \<and> distinct (unique rows)
   \<and> set (unique rows) = set rows"
proof (intro conjI impI)
  assume "all_prof_reviews_loop run batch_size prof_ids prof_num_reviews 0 [] []
        = Some (Inr (errors, total_data))"
  then have "all_prof_reviews data_frame run prof_ids prof_num_reviews batch_size
      = Some (Inr (errors, unique (data_frame total_data)))"
    by (simp add: all_prof_reviews_def)
  then show "\<exists>table.
         all_prof_reviews data_frame run prof_ids prof_num_reviews batch_size
           = Some (Inr (errors, table))
         \<and> distinct table
         \<and> set table = set (data_frame total_data)
         \<and> length (unique table) = length table
         \<and> set (unique table) = set table"
    by (simp add: unique_distinct distinct_unique set_unique)
next
  have "snd (all_profs data_frame' run' start stop True)
      = Some (unique (data_frame' (fst (all_profs data_frame' run' start stop True))))"
    by (simp add: all_profs_def Let_def)
  then show "\<exists>table.
         snd (all_profs data_frame' run' start stop True) = Some table
         \<and> distinct table
         \<and> set table = set (data_frame' (fst (all_profs data_frame' run' start stop True)))
         \<and> length (unique table) = length table
         \<and> set (unique table) = set table"
    by (simp add: unique_distinct distinct_unique set_unique)
next
  assume a: "(\<forall>batch i. run batch i = unit) \<and> 0 < batch_size
        \<and> length prof_ids \<le> length prof_num_reviews"
  then have run: "run = (\<lambda>batch i. unit)"
    by (intro ext) simp
  from a have B: "0 < batch_size" and n: "\<not> length prof_num_reviews < length prof_ids"
    by auto
  show "\<exists>table.
         all_prof_reviews data_frame run prof_ids prof_num_reviews batch_size
           = Some (Inr (work_errors unit (zip prof_ids prof_num_reviews), table))
         \<and> distinct table
         \<and> set table = set (data_frame (work_data unit (zip prof_ids prof_num_reviews)))"
    unfolding run all_prof_reviews_const [OF B]
    using n by (simp add: distinct_unique set_unique)
qed (simp_all add: unique_distinct distinct_unique set_unique)

theorem dedup_idempotent_witness:
  "all_prof_reviews_loop steady_run 2 [''p1'', ''p2'', ''p1''] [7, 7, 7] 0 [] []
     = Some (Inr ([], [review_record ''p1'' ''A'', review_record ''p2'' ''A'',
                       review_record ''p1'' ''A'']))
   \<and> (\<exists>table.
         all_prof_reviews record_rows steady_run [''p1'', ''p2'', ''p1''] [7, 7, 7] 2
           = Some (Inr ([], table))
         \<and> set table = {review_record ''p1'' ''A'', review_record ''p2'' ''A''}
         \<and> length table = 2
         \<and> length (unique table) = 2)"
proof -
  let ?ids = "[''p1'', ''p2'', ''p1'']"
  let ?nums = "[7, 7, 7 :: int]"
  let ?data = "[review_record ''p1'' ''A'', review_record ''p2'' ''A'', review_record ''p1'' ''A'']"
  have run: "steady_run = (\<lambda>batch i. p3_times_out)"
    by (intro ext) (simp add: steady_run_def)
  have loop: "all_prof_reviews_loop steady_run 2 ?ids ?nums 0 [] [] = Some (Inr ([], ?data))"
    unfolding run
    by (simp add: all_prof_reviews_loop_const work_errors_def work_data_def p3_times_out_def)
  have h: "(\<forall>batch i. steady_run batch i = p3_times_out) \<and> (0 :: int) < 2
      \<and> length ?ids \<le> length ?nums"
    by (simp add: steady_run_def)
  have ne: "review_record ''p1'' ''A'' \<noteq> review_record ''p2'' ''A''"
    by (simp add: review_record_def)
  from dedup_idempotent [where run = steady_run and batch_size = 2 and prof_ids = ?ids
      and prof_num_reviews = ?nums and errors = "[]" and total_data = ?data
      and data_frame = record_rows and unit = p3_times_out]
  have "all_prof_reviews_loop steady_run 2 ?ids ?nums 0 [] [] = Some (Inr ([], ?data)) \<longrightarrow>
      (\<exists>table.
         all_prof_reviews record_rows steady_run ?ids ?nums 2 = Some (Inr ([], table))
         \<and> distinct table
         \<and> set table = set (record_rows ?data)
         \<and> length (unique table) = length table
         \<and> set (unique table) = set table)"
    by (rule conjunct1)
  with loop obtain table where t: "all_prof_reviews record_rows steady_run ?ids ?nums 2
        = Some (Inr ([], table))"
    and d: "distinct table"
    and s: "set table = set (record_rows ?data)"
    and u: "length (unique table) = length table"
    by blast
  from s have s': "set table = {review_record ''p1'' ''A'', review_record ''p2'' ''A''}"
    by (auto simp: record_rows_def)
  from d have "length table = card (set table)"
    by (simp add: distinct_card)
  with s' ne have l: "length table = 2"
    by simp
  from u l have u': "length (unique table) = 2"
    by simp
  from t s' l u' have "\<exists>table.
         all_prof_reviews record_rows steady_run ?ids ?nums 2 = Some (Inr ([], table))
         \<and> set table = {review_record ''p1'' ''A'', review_record ''p2'' ''A''}
         \<and> length table = 2
         \<and> length (unique table) = 2"
    by blast
  with loop show ?thesis
    by (rule conjI)
qed

section \<open>The validity probe\<close>

lemma no_ratings_page_marker: "py_in no_ratings_marker no_ratings_page"
  by (simp add: no_ratings_marker_def no_ratings_page_def)

text \<open>
  C6. A school is valid exactly when its page contains neither the not-found marker nor
  the no-ratings marker. For a page that contains one of them \<open>get_profs\<close> returns the
  empty list and sends no paginated request, whatever the service would have answered.
\<close>

theorem validity_short_circuit:
  "school_valid (Inr text)
     = Inr (\<not> py_in not_found_marker text \<and> \<not> py_in no_ratings_marker text)
   \<and> (py_in not_found_marker text \<or> py_in no_ratings_marker text \<longrightarrow>
        get_profs (Inr text) responses page_size pages = Some (Inr [], []))"
  by (simp add: get_profs_def)

theorem validity_short_circuit_witness:
  "py_in no_ratings_marker no_ratings_page
   \<and> get_profs (Inr no_ratings_page) [PostRaises RequestException] 1000 None = Some (Inr [], [])"
  using validity_short_circuit [of no_ratings_page "[PostRaises RequestException]" 1000 None]
    no_ratings_page_marker
  by simp

section \<open>The page size of a request\<close>

text \<open>
  C7, as claimed, asks that every request's \<^verbatim>\<open>count\<close> is clamped to the service
  maximum of 1000. \<^verbatim>\<open>get_profs\<close> sends its \<^verbatim>\<open>page_size\<close> argument as it is: called
  with 5000 on a valid school it sends a request with \<^verbatim>\<open>count\<close> 5000.
\<close>

theorem page_size_not_clamped:
  "get_profs (Inr valid_school_page) [Json (profs_doc [] (JBool False) JNull)] 5000 None
     = Some (Inr [], [\<lparr>count = 5000, cursor = JStr []\<rparr>])
   \<and> \<not> (5000 :: int) \<le> 1000"
  by (simp del: school_valid.simps add: get_profs_def valid_school_page_valid profs_doc_def)

text \<open>
  C7, amended. Every request of \<^verbatim>\<open>get_prof_reviews\<close> carries
  \<^verbatim>\<open>count = min(1000, num_reviews)\<close>, which is at most 1000. Every request of
  \<^verbatim>\<open>get_profs\<close> carries the caller's \<^verbatim>\<open>page_size\<close> unchanged (1000 by default).
\<close>

theorem page_size_sent:
  "(get_prof_reviews responses prof_id num_reviews = Some (res, sent) \<longrightarrow>
      (\<forall>v\<in>set sent. count v = min 1000 num_reviews \<and> count v \<le> 1000))
   \<and> (get_profs probe responses' page_size pages = Some (out, sent') \<longrightarrow>
      (\<forall>v\<in>set sent'. count v = page_size))"
proof (intro conjI impI)
  assume "get_prof_reviews responses prof_id num_reviews = Some (res, sent)"
  then show "\<forall>v\<in>set sent. count v = min 1000 num_reviews \<and> count v \<le> 1000"
    unfolding get_prof_reviews_def by (auto dest!: get_prof_reviews_loop_inv)
next
  assume "get_profs probe responses' page_size pages = Some (out, sent')"
  then show "\<forall>v\<in>set sent'. count v = page_size"
    unfolding get_profs_def
    by (auto dest!: get_profs_loop_inv split: sum.splits if_splits)
qed

theorem page_size_sent_witness:
  "get_prof_reviews [Json (reviews_doc [review ''E''] (JBool False) (JStr ''c3''))] ''p'' 2500
     = Some (\<lparr>task_data = [review_record ''p'' ''E''], task_error = False\<rparr>,
             [\<lparr>count = 1000, cursor = JStr []\<rparr>])
   \<and> get_profs (Inr valid_school_page) [Json (profs_doc [] (JBool False) JNull)] 5000 None
     = Some (Inr [], [\<lparr>count = 5000, cursor = JStr []\<rparr>])
   \<and> count \<lparr>count = 1000, cursor = JStr []\<rparr> = min 1000 2500
   \<and> count \<lparr>count = 5000, cursor = JStr []\<rparr> = 5000"
  using page_size_sent [of "[Json (reviews_doc [review ''E''] (JBool False) (JStr ''c3''))]" "''p''" 2500
      "\<lparr>task_data = [review_record ''p'' ''E''], task_error = False\<rparr>"
      "[\<lparr>count = 1000, cursor = JStr []\<rparr>]"
      "Inr valid_school_page" "[Json (profs_doc [] (JBool False) JNull)]" 5000 None
      "Inr []" "[\<lparr>count = 5000, cursor = JStr []\<rparr>]"]
  by (simp del: school_valid.simps
      add: get_profs_def valid_school_page_valid profs_doc_def
        get_prof_reviews_def reviews_doc_def get_prof_reviews_node_review)

section \<open>The records that are kept\<close>

text \<open>
  C8. Every record in what \<^verbatim>\<open>get_profs\<close> returns has no \<^verbatim>\<open>school\<close> entry and has the
  entries \<^verbatim>\<open>schoolId\<close> and \<^verbatim>\<open>schoolName\<close>, which hold the \<^verbatim>\<open>id\<close> and \<^verbatim>\<open>name\<close> of
  the node's nested \<^verbatim>\<open>school\<close>; all other entries are the node's. Every record in the
  data that \<^verbatim>\<open>get_prof_reviews\<close> returns, with or without the error flag, has
  \<^verbatim>\<open>profId\<close> set to the professor's id and has neither \<^verbatim>\<open>thumbs\<close> nor
  \<^verbatim>\<open>teacherNote\<close>; all other entries are the node's.
\<close>

theorem records_reshaped:
  "(get_profs probe responses page_size pages = Some (Inr results, sent) \<longrightarrow>
      (\<forall>r\<in>set results.
         py_contains ''school'' r = Inr False
         \<and> py_contains ''schoolId'' r = Inr True
         \<and> py_contains ''schoolName'' r = Inr True))
   \<and> (get_profs_edge edge = Inr (Some r) \<longrightarrow>
        py_getitem r ''schoolId''
          = and_then (py_getitem edge ''node'') (\<lambda>node. py_path node [''school'', ''id''])
        \<and> py_getitem r ''schoolName''
          = and_then (py_getitem edge ''node'') (\<lambda>node. py_path node [''school'', ''name''])
        \<and> (\<forall>k. k \<notin> {''school'', ''schoolId'', ''schoolName''} \<longrightarrow>
             py_getitem r k = and_then (py_getitem edge ''node'') (\<lambda>node. py_getitem node k)))
   \<and> (get_prof_reviews responses' prof_id num_reviews = Some (res, sent') \<longrightarrow>
      (\<forall>r\<in>set (task_data res).
         py_getitem r ''profId'' = Inr (JStr prof_id)
         \<and> py_contains ''thumbs'' r = Inr False
         \<and> py_contains ''teacherNote'' r = Inr False))
   \<and> (get_prof_reviews_node prof_id edge' = Inr r' \<longrightarrow>
        (\<forall>k. k \<notin> {''profId'', ''thumbs'', ''teacherNote''} \<longrightarrow>
             py_getitem r' k = and_then (py_getitem edge' ''node'') (\<lambda>node. py_getitem node k)))"
proof (intro conjI impI ballI allI)
  fix x
  assume "get_profs probe responses page_size pages = Some (Inr results, sent)" "x \<in> set results"
  then obtain e where e: "get_profs_edge e = Inr (Some x)"
    using get_profs_results by blast
  show "py_contains ''school'' x = Inr False" "py_contains ''schoolId'' x = Inr True"
    "py_contains ''schoolName'' x = Inr True"
    using get_profs_edge_record(1-3) [OF e] by auto
next
  assume e: "get_profs_edge edge = Inr (Some r)"
  show "py_getitem r ''schoolId''
          = and_then (py_getitem edge ''node'') (\<lambda>node. py_path node [''school'', ''id''])"
    "py_getitem r ''schoolName''
          = and_then (py_getitem edge ''node'') (\<lambda>node. py_path node [''school'', ''name''])"
    by (rule get_profs_edge_record(5,6) [OF e])+
  fix k :: string
  assume "k \<notin> {''school'', ''schoolId'', ''schoolName''}"
  then show "py_getitem r k = and_then (py_getitem edge ''node'') (\<lambda>node. py_getitem node k)"
    by (rule get_profs_edge_record(7) [OF e])
next
  fix x
  assume "get_prof_reviews responses' prof_id num_reviews = Some (res, sent')"
    "x \<in> set (task_data res)"
  then obtain n where n: "get_prof_reviews_node prof_id n = Inr x"
    using get_prof_reviews_results by blast
  show "py_getitem x ''profId'' = Inr (JStr prof_id)" "py_contains ''thumbs'' x = Inr False"
    "py_contains ''teacherNote'' x = Inr False"
    using get_prof_reviews_node_record(1-3) [OF n] by auto
next
  fix k :: string
  assume e: "get_prof_reviews_node prof_id edge' = Inr r'"
  assume "k \<notin> {''profId'', ''thumbs'', ''teacherNote''}"
  then show "py_getitem r' k = and_then (py_getitem edge' ''node'') (\<lambda>node. py_getitem node k)"
    by (rule get_prof_reviews_node_record(4) [OF e])
qed

theorem records_reshaped_witness:
  "get_profs (Inr valid_school_page)
     [Json (profs_doc [teacher ''Ada'', campus] (JBool True) (JStr ''c1'')),
      Json (profs_doc [teacher ''Grace''] (JBool False) JNull)] 1000 None
     = Some (Inr [teacher_record ''Ada'', teacher_record ''Grace''],
             requests 1000 [JStr [], JStr ''c1''])
   \<and> py_contains ''school'' (teacher_record ''Grace'') = Inr False
   \<and> py_contains ''schoolId'' (teacher_record ''Grace'') = Inr True
   \<and> py_contains ''schoolName'' (teacher_record ''Grace'') = Inr True
   \<and> get_profs_edge (JObj [(''node'', teacher ''Ada'')]) = Inr (Some (teacher_record ''Ada''))
   \<and> py_getitem (teacher_record ''Ada'') ''schoolId'' = Inr (JStr ''U2Nob29sLTE='')
   \<and> py_getitem (teacher_record ''Ada'') ''schoolName'' = Inr (JStr ''Example University'')
   \<and> py_getitem (teacher_record ''Ada'') ''lastName'' = Inr (JStr ''Ada'')
   \<and> get_prof_reviews
     [Json (reviews_doc [review ''A'', review ''B''] (JBool True) (JStr ''c1'')),
      Json (reviews_doc [review ''C'', review ''D''] (JBool True) (JStr ''c2'')),
      Json (reviews_doc [review ''E''] (JBool False) (JStr ''c3''))] ''p'' 2
     = Some (\<lparr>task_data = map (review_record ''p'') [''A'', ''B'', ''C'', ''D'', ''E''],
               task_error = False\<rparr>,
             requests 2 [JStr [], JStr ''c1'', JStr ''c2''])
   \<and> py_getitem (review_record ''p'' ''D'') ''profId'' = Inr (JStr ''p'')
   \<and> py_contains ''thumbs'' (review_record ''p'' ''D'') = Inr False
   \<and> py_contains ''teacherNote'' (review_record ''p'' ''D'') = Inr False
   \<and> get_prof_reviews_node ''p'' (JObj [(''node'', review ''D'')]) = Inr (review_record ''p'' ''D'')
   \<and> py_getitem (review_record ''p'' ''D'') ''comment'' = Inr (JStr ''D'')"
proof -
  note r = records_reshaped [where probe = "Inr valid_school_page"
      and responses = "[Json (profs_doc [teacher ''Ada'', campus] (JBool True) (JStr ''c1'')),
          Json (profs_doc [teacher ''Grace''] (JBool False) JNull)]"
      and page_size = 1000 and pages = None
      and results = "[teacher_record ''Ada'', teacher_record ''Grace'']"
      and sent = "requests 1000 [JStr [], JStr ''c1'']"
      and edge = "JObj [(''node'', teacher ''Ada'')]" and r = "teacher_record ''Ada''"
      and responses' = "[Json (reviews_doc [review ''A'', review ''B''] (JBool True) (JStr ''c1'')),
          Json (reviews_doc [review ''C'', review ''D''] (JBool True) (JStr ''c2'')),
          Json (reviews_doc [review ''E''] (JBool False) (JStr ''c3''))]"
      and prof_id = "''p''" and num_reviews = 2
      and res = "\<lparr>task_data = map (review_record ''p'') [''A'', ''B'', ''C'', ''D'', ''E''],
               task_error = False\<rparr>"
      and sent' = "requests 2 [JStr [], JStr ''c1'', JStr ''c2'']"
      and edge' = "JObj [(''node'', review ''D'')]" and r' = "review_record ''p'' ''D''"]
  from r profs_two_pages have
    "py_contains ''school'' (teacher_record ''Grace'') = Inr False
     \<and> py_contains ''schoolId'' (teacher_record ''Grace'') = Inr True
     \<and> py_contains ''schoolName'' (teacher_record ''Grace'') = Inr True"
    by simp
  moreover from r get_profs_edge_teacher [of "''Ada''"] have
    "py_getitem (teacher_record ''Ada'') ''schoolId'' = Inr (JStr ''U2Nob29sLTE='')
     \<and> py_getitem (teacher_record ''Ada'') ''schoolName'' = Inr (JStr ''Example University'')
     \<and> py_getitem (teacher_record ''Ada'') ''lastName'' = Inr (JStr ''Ada'')"
    by (simp add: teacher_def)
  moreover from r reviews_three_pages have
    "py_getitem (review_record ''p'' ''D'') ''profId'' = Inr (JStr ''p'')
     \<and> py_contains ''thumbs'' (review_record ''p'' ''D'') = Inr False
     \<and> py_contains ''teacherNote'' (review_record ''p'' ''D'') = Inr False"
    by simp
  moreover from r get_prof_reviews_node_review [of "''p''" "''D''"] have
    "py_getitem (review_record ''p'' ''D'') ''comment'' = Inr (JStr ''D'')"
    by (simp add: review_def)
  ultimately show ?thesis
    using profs_two_pages reviews_three_pages get_profs_edge_teacher [of "''Ada''"]
      get_prof_reviews_node_review [of "''p''" "''D''"]
    by blast
qed

section \<open>Edges that are not teachers\<close>

text \<open>
  C9. The loop body of \<^verbatim>\<open>get_profs\<close> skips an edge, without an exception, exactly when
  the edge has a node whose \<^verbatim>\<open>__typename\<close> is not \<^verbatim>\<open>'Teacher'\<close>. Skipped edges leave no
  trace: the loop over the edges gives the same result without them, and a run in which a
  page arrives without its skipped edges returns the same and sends the same requests.
  Hence every record \<^verbatim>\<open>get_profs\<close> returns has \<^verbatim>\<open>__typename\<close> \<^verbatim>\<open>'Teacher'\<close>.
\<close>

theorem non_teachers_skipped:
  "(get_profs_edge edge = Inr None \<longleftrightarrow>
      (\<exists>node typename. py_getitem edge ''node'' = Inr node
         \<and> py_getitem node ''__typename'' = Inr typename \<and> typename \<noteq> JStr ''Teacher''))
   \<and> get_profs_edges (filter (\<lambda>e. get_profs_edge e \<noteq> Inr None) edges) results
       = get_profs_edges edges results
   \<and> (and_then (py_path j [''data'', ''search'', ''teachers'', ''edges'']) py_iter = Inr edges
       \<and> and_then (py_path j' [''data'', ''search'', ''teachers'', ''edges'']) py_iter
            = Inr (filter (\<lambda>e. get_profs_edge e \<noteq> Inr None) edges)
       \<and> py_path j' [''data'', ''search'', ''teachers'', ''pageInfo'']
            = py_path j [''data'', ''search'', ''teachers'', ''pageInfo'']
       \<and> py_getitem j' ''errors'' = py_getitem j ''errors''
       \<longrightarrow> get_profs probe (before @ Json j' # rest) page_size pages
            = get_profs probe (before @ Json j # rest) page_size pages)
   \<and> (get_profs probe responses page_size pages = Some (Inr returned, sent) \<longrightarrow>
        (\<forall>r\<in>set returned. py_getitem r ''__typename'' = Inr (JStr ''Teacher'')))"
proof (intro conjI impI ballI)
  show "get_profs_edge edge = Inr None \<longleftrightarrow>
      (\<exists>node typename. py_getitem edge ''node'' = Inr node
         \<and> py_getitem node ''__typename'' = Inr typename \<and> typename \<noteq> JStr ''Teacher'')"
    by (rule get_profs_edge_None)
  show "get_profs_edges (filter (\<lambda>e. get_profs_edge e \<noteq> Inr None) edges) results
       = get_profs_edges edges results"
    by (rule get_profs_edges_skip)
next
  assume a: "and_then (py_path j [''data'', ''search'', ''teachers'', ''edges'']) py_iter = Inr edges
       \<and> and_then (py_path j' [''data'', ''search'', ''teachers'', ''edges'']) py_iter
            = Inr (filter (\<lambda>e. get_profs_edge e \<noteq> Inr None) edges)
       \<and> py_path j' [''data'', ''search'', ''teachers'', ''pageInfo'']
            = py_path j [''data'', ''search'', ''teachers'', ''pageInfo'']
       \<and> py_getitem j' ''errors'' = py_getitem j ''errors''"
  have "get_profs_loop page_size pages (before @ Json j' # rest) c r k jv s
      = get_profs_loop page_size pages (before @ Json j # rest) c r k jv s" for c r k jv s
    by (rule get_profs_loop_cong_prefix) (use a in \<open>simp only: get_profs_loop_skip\<close>)
  then show "get_profs probe (before @ Json j' # rest) page_size pages
            = get_profs probe (before @ Json j # rest) page_size pages"
    by (simp add: get_profs_def split: sum.split)
next
  fix r
  assume "get_profs probe responses page_size pages = Some (Inr returned, sent)"
    "r \<in> set returned"
  then obtain e where "get_profs_edge e = Inr (Some r)"
    using get_profs_results by blast
  then show "py_getitem r ''__typename'' = Inr (JStr ''Teacher'')"
    by (rule get_profs_edge_record(4))
qed

theorem non_teachers_skipped_witness:
  "get_profs_edge (JObj [(''node'', campus)]) = Inr None
   \<and> py_getitem campus ''__typename'' = Inr (JStr ''School'')
   \<and> get_profs (Inr valid_school_page)
       [Json (profs_doc [teacher ''Ada''] (JBool True) (JStr ''c1'')),
        Json (profs_doc [teacher ''Grace''] (JBool False) JNull)] 1000 None
     = get_profs (Inr valid_school_page)
       [Json (profs_doc [teacher ''Ada'', campus] (JBool True) (JStr ''c1'')),
        Json (profs_doc [teacher ''Grace''] (JBool False) JNull)] 1000 None
   \<and> get_profs (Inr valid_school_page)
       [Json (profs_doc [teacher ''Ada'', campus] (JBool True) (JStr ''c1'')),
        Json (profs_doc [teacher ''Grace''] (JBool False) JNull)] 1000 None
     = Some (Inr [teacher_record ''Ada'', teacher_record ''Grace''],
             requests 1000 [JStr [], JStr ''c1''])
   \<and> py_getitem (teacher_record ''Ada'') ''__typename'' = Inr (JStr ''Teacher'')
   \<and> py_getitem (teacher_record ''Grace'') ''__typename'' = Inr (JStr ''Teacher'')"
proof -
  let ?j = "profs_doc [teacher ''Ada'', campus] (JBool True) (JStr ''c1'')"
  let ?j' = "profs_doc [teacher ''Ada''] (JBool True) (JStr ''c1'')"
  let ?edges = "[JObj [(''node'', teacher ''Ada'')], JObj [(''node'', campus)]]"
  note t = non_teachers_skipped [where edge = "JObj [(''node'', campus)]"
      and j = ?j and j' = ?j' and edges = ?edges and before = "[]"
      and rest = "[Json (profs_doc [teacher ''Grace''] (JBool False) JNull)]"
      and probe = "Inr valid_school_page" and page_size = 1000 and pages = None
      and responses = "[Json ?j, Json (profs_doc [teacher ''Grace''] (JBool False) JNull)]"
      and returned = "[teacher_record ''Ada'', teacher_record ''Grace'']"
      and sent = "requests 1000 [JStr [], JStr ''c1'']"]
  have 1: "and_then (py_path ?j [''data'', ''search'', ''teachers'', ''edges'']) py_iter = Inr ?edges"
    by (simp add: profs_doc_def)
  have 2: "and_then (py_path ?j' [''data'', ''search'', ''teachers'', ''edges'']) py_iter
      = Inr (filter (\<lambda>e. get_profs_edge e \<noteq> Inr None) ?edges)"
    by (simp add: profs_doc_def get_profs_edge_teacher get_profs_edge_campus)
  have 3: "py_path ?j' [''data'', ''search'', ''teachers'', ''pageInfo'']
      = py_path ?j [''data'', ''search'', ''teachers'', ''pageInfo'']"
    by (simp add: profs_doc_def)
  have 4: "py_getitem ?j' ''errors'' = py_getitem ?j ''errors''"
    by (simp add: profs_doc_def)
  from t 1 2 3 4 have eq: "get_profs (Inr valid_school_page)
       [Json ?j', Json (profs_doc [teacher ''Grace''] (JBool False) JNull)] 1000 None
     = get_profs (Inr valid_school_page)
       [Json ?j, Json (profs_doc [teacher ''Grace''] (JBool False) JNull)] 1000 None"
    by (simp only: append_Nil)
  from t profs_two_pages have ty:
    "py_getitem (teacher_record ''Ada'') ''__typename'' = Inr (JStr ''Teacher'')
     \<and> py_getitem (teacher_record ''Grace'') ''__typename'' = Inr (JStr ''Teacher'')"
    by simp
  have "py_getitem campus ''__typename'' = Inr (JStr ''School'')"
    by (simp add: campus_def)
  with eq ty profs_two_pages get_profs_edge_campus show ?thesis
    by blast
qed

section \<open>A review without \<^verbatim>\<open>thumbs\<close>\<close>

text \<open>
  C10. When a page of reviews holds a node that is a dict without the key \<^verbatim>\<open>thumbs\<close>,
  \<^verbatim>\<open>del node["thumbs"]\<close> raises and the whole run of \<^verbatim>\<open>get_prof_reviews\<close> ends there
  with the error flag set. Its data are the records of the earlier pages and of the nodes
  that precede the offending one on its page; the nodes after it, and any further page,
  are not read. The page is otherwise well formed: nothing is assumed of it beyond its
  list of edges.
\<close>

theorem missing_thumbs_fails_run:
  assumes "list_all2 (reviews_page_yields prof_id) docs pages"
    and "\<forall>p\<in>set pages. truthy (fst (snd p))"
    and "and_then (py_path rj [''data'', ''node'', ''ratings'', ''edges'']) py_iter
          = Inr (before @ bad # after)"
    and "map (get_prof_reviews_node prof_id) before = map Inr items"
    and "py_getitem bad ''node'' = Inr (JObj kvs)"
    and "map_of kvs ''thumbs'' = None"
  shows "get_prof_reviews (map Json docs @ Json rj # rest) prof_id num_reviews
     = Some (\<lparr>task_data = concat (map fst pages) @ items, task_error = True\<rparr>,
             requests (min 1000 num_reviews) (JStr [] # map (\<lambda>p. snd (snd p)) pages))"
proof -
  let ?cursors = "JStr [] # map (\<lambda>p. snd (snd p)) pages"
  have "get_prof_reviews_nodes prof_id (before @ bad # after) (concat (map fst pages))
      = (concat (map fst pages) @ items, Some KeyError)"
    using assms(4) get_prof_reviews_node_no_thumbs [OF assms(5,6)]
    by (rule get_prof_reviews_nodes_stop)
  from get_prof_reviews_loop_nodes_stop [OF assms(3) this]
  have "get_prof_reviews (map Json docs @ Json rj # rest) prof_id num_reviews
     = Some (\<lparr>task_data = concat (map fst pages) @ items, task_error = True\<rparr>,
             requests (min 1000 num_reviews) (butlast ?cursors)
               @ [\<lparr>count = min 1000 num_reviews, cursor = last ?cursors\<rparr>])"
    unfolding get_prof_reviews_def get_prof_reviews_loop_pages [OF assms(1,2)]
    by (simp del: get_prof_reviews_loop.simps last.simps butlast.simps)
  also have "requests (min 1000 num_reviews) (butlast ?cursors)
               @ [\<lparr>count = min 1000 num_reviews, cursor = last ?cursors\<rparr>]
      = requests (min 1000 num_reviews) ?cursors"
    by (rule requests_butlast_last) simp
  finally show ?thesis .
qed

theorem missing_thumbs_fails_run_witness:
  "py_getitem (review_without_thumbs ''D'') ''thumbs'' = Inl KeyError
   \<and> get_prof_reviews
       [Json (reviews_doc [review ''A'', review ''B''] (JBool True) (JStr ''c1'')),
        Json (reviews_doc [review ''C'', review_without_thumbs ''D'', review ''E'']
                (JBool False) (JStr ''c2'')),
        Json (reviews_doc [] (JBool False) (JStr ''c3''))] ''p'' 3
     = Some (\<lparr>task_data = map (review_record ''p'') [''A'', ''B'', ''C''], task_error = True\<rparr>,
             requests 3 [JStr [], JStr ''c1''])"
proof -
  let ?d1 = "reviews_doc [review ''A'', review ''B''] (JBool True) (JStr ''c1'')"
  let ?rj = "reviews_doc [review ''C'', review_without_thumbs ''D'', review ''E'']
                (JBool False) (JStr ''c2'')"
  have 1: "list_all2 (reviews_page_yields ''p'') [?d1]
      [(map (review_record ''p'') [''A'', ''B''], JBool True, JStr ''c1'')]"
    by (simp del: reviews_page_yields.simps add: reviews_doc_yields get_prof_reviews_node_review)
  have 2: "\<forall>p\<in>set [(map (review_record ''p'') [''A'', ''B''], JBool True, JStr ''c1'')].
      truthy (fst (snd p))"
    by simp
  have 3: "and_then (py_path ?rj [''data'', ''node'', ''ratings'', ''edges'']) py_iter
      = Inr ([JObj [(''node'', review ''C'')]] @ JObj [(''node'', review_without_thumbs ''D'')]
              # [JObj [(''node'', review ''E'')]])"
    by (simp add: reviews_doc_def)
  have 4: "map (get_prof_reviews_node ''p'') [JObj [(''node'', review ''C'')]]
      = map Inr [review_record ''p'' ''C'']"
    by (simp add: get_prof_reviews_node_review)
  have 5: "py_getitem (JObj [(''node'', review_without_thumbs ''D'')]) ''node''
      = Inr (JObj [(''comment'', JStr ''D'')])"
    by (simp add: review_without_thumbs_def)
  have 6: "map_of [(''comment'', JStr ''D'')] ''thumbs'' = None"
    by simp
  have 7: "py_getitem (review_without_thumbs ''D'') ''thumbs'' = Inl KeyError"
    by (simp add: review_without_thumbs_def)
  from missing_thumbs_fails_run [OF 1 2 3 4 5 6,
      of "[Json (reviews_doc [] (JBool False) (JStr ''c3''))]" 3] 7
  show ?thesis by simp
qed

section \<open>Pagination to the last page\<close>

text \<open>
  C3, as claimed, asks that the list returned is exactly the items of all served pages.
  A page of the professors query whose only edge has a node that is not a \<^verbatim>\<open>'Teacher'\<close>
  serves one item, says that no page follows, and \<^verbatim>\<open>get_profs\<close> returns the empty list.
\<close>

theorem skipped_item_not_returned:
  "and_then (py_path (profs_doc [campus] (JBool False) JNull)
       [''data'', ''search'', ''teachers'', ''edges'']) py_iter
     = Inr [JObj [(''node'', campus)]]
   \<and> profs_has_next_false (Json (profs_doc [campus] (JBool False) JNull))
   \<and> get_profs (Inr valid_school_page) [Json (profs_doc [campus] (JBool False) JNull)] 1000 None
     = Some (Inr [], [\<lparr>count = 1000, cursor = JStr []\<rparr>])"
  by (simp del: school_valid.simps
      add: get_profs_def valid_school_page_valid profs_doc_def get_profs_edge_campus)

text \<open>
  C3, amended. When some response of the sequence has a \<^verbatim>\<open>hasNextPage\<close> that is false,
  both paginators return (the run ends within the sequence). When the documents up to the
  first one with a false \<^verbatim>\<open>hasNextPage\<close> are read without an exception, the result is, in
  page order and edge order, one record for each edge of the served pages, where
  \<^verbatim>\<open>get_profs\<close> has a record only for the edges it does not skip; one request is sent per
  served page, each with the cursor of the page before; the reviews run has no error flag.
  For \<^verbatim>\<open>get_profs\<close> the school is valid and the \<^verbatim>\<open>pages\<close> cap, if any, is not reached
  before the last page.
\<close>

theorem pagination_terminates_and_collects:
  "((\<exists>r\<in>set responses. reviews_has_next_false r) \<longrightarrow>
      get_prof_reviews responses prof_id num_reviews \<noteq> None)
   \<and> ((\<exists>r\<in>set responses'. profs_has_next_false r) \<longrightarrow>
      get_profs probe responses' page_size cap \<noteq> None)
   \<and> (list_all2 (reviews_page_yields prof_id) docs (pages @ [(items, keep_going, end_cursor)])
       \<and> (\<forall>p\<in>set pages. truthy (fst (snd p))) \<and> \<not> truthy keep_going \<longrightarrow>
      get_prof_reviews (map Json docs @ rest) prof_id num_reviews
        = Some (\<lparr>task_data = concat (map fst pages) @ items, task_error = False\<rparr>,
                requests (min 1000 num_reviews) (JStr [] # map (\<lambda>p. snd (snd p)) pages)))
   \<and> (school_valid probe = Inr True
       \<and> list_all2 profs_page_yields docs' (pages' @ [(outcomes, has_more, end_cursor')])
       \<and> (\<forall>p\<in>set pages'. truthy (fst (snd p))) \<and> \<not> truthy has_more
       \<and> (cap = None \<or> int (length pages') < the cap) \<longrightarrow>
      get_profs probe (map Json docs' @ rest') page_size cap
        = Some (Inr (concat (map (\<lambda>p. appended (fst p)) pages') @ appended outcomes),
                requests page_size (JStr [] # map (\<lambda>p. snd (snd p)) pages')))"
proof (intro conjI impI)
  assume "\<exists>r\<in>set responses. reviews_has_next_false r"
  then show "get_prof_reviews responses prof_id num_reviews \<noteq> None"
    unfolding get_prof_reviews_def by (rule get_prof_reviews_loop_terminates)
next
  assume a: "\<exists>r\<in>set responses'. profs_has_next_false r"
  show "get_profs probe responses' page_size cap \<noteq> None"
  proof (cases "school_valid probe")
    case (Inl e)
    then show ?thesis by (simp add: get_profs_def)
  next
    case (Inr valid)
    then show ?thesis
      using get_profs_loop_terminates [OF a] by (simp add: get_profs_def)
  qed
next
  assume "list_all2 (reviews_page_yields prof_id) docs (pages @ [(items, keep_going, end_cursor)])
       \<and> (\<forall>p\<in>set pages. truthy (fst (snd p))) \<and> \<not> truthy keep_going"
  then show "get_prof_reviews (map Json docs @ rest) prof_id num_reviews
        = Some (\<lparr>task_data = concat (map fst pages) @ items, task_error = False\<rparr>,
                requests (min 1000 num_reviews) (JStr [] # map (\<lambda>p. snd (snd p)) pages))"
    using get_prof_reviews_pages_last by blast
next
  assume "school_valid probe = Inr True
       \<and> list_all2 profs_page_yields docs' (pages' @ [(outcomes, has_more, end_cursor')])
       \<and> (\<forall>p\<in>set pages'. truthy (fst (snd p))) \<and> \<not> truthy has_more
       \<and> (cap = None \<or> int (length pages') < the cap)"
  then show "get_profs probe (map Json docs' @ rest') page_size cap
        = Some (Inr (concat (map (\<lambda>p. appended (fst p)) pages') @ appended outcomes),
                requests page_size (JStr [] # map (\<lambda>p. snd (snd p)) pages'))"
    using get_profs_pages_last by blast
qed

theorem pagination_terminates_and_collects_witness:
  "reviews_has_next_false (Json (reviews_doc [review ''E''] (JBool False) (JStr ''c3'')))
   \<and> get_prof_reviews
       [Json (reviews_doc [review ''A'', review ''B''] (JBool True) (JStr ''c1'')),
        Json (reviews_doc [review ''C'', review ''D''] (JBool True) (JStr ''c2'')),
        Json (reviews_doc [review ''E''] (JBool False) (JStr ''c3''))] ''42'' 2
     = Some (\<lparr>task_data = map (review_record ''42'') [''A'', ''B'', ''C'', ''D'', ''E''],
               task_error = False\<rparr>,
             requests 2 [JStr [], JStr ''c1'', JStr ''c2''])
   \<and> profs_has_next_false (Json (profs_doc [teacher ''Grace''] (JBool False) JNull))
   \<and> get_profs (Inr valid_school_page)
       [Json (profs_doc [teacher ''Ada'', campus] (JBool True) (JStr ''c1'')),
        Json (profs_doc [teacher ''Grace''] (JBool False) JNull)] 1000 None
     = Some (Inr [teacher_record ''Ada'', teacher_record ''Grace''],
             requests 1000 [JStr [], JStr ''c1''])"
proof -
  let ?r1 = "reviews_doc [review ''A'', review ''B''] (JBool True) (JStr ''c1'')"
  let ?r2 = "reviews_doc [review ''C'', review ''D''] (JBool True) (JStr ''c2'')"
  let ?r3 = "reviews_doc [review ''E''] (JBool False) (JStr ''c3'')"
  let ?p1 = "profs_doc [teacher ''Ada'', campus] (JBool True) (JStr ''c1'')"
  let ?p2 = "profs_doc [teacher ''Grace''] (JBool False) JNull"
  let ?rpages = "[(map (review_record ''42'') [''A'', ''B''], JBool True, JStr ''c1''),
      (map (review_record ''42'') [''C'', ''D''], JBool True, JStr ''c2'')]"
  let ?ppages = "[([Some (teacher_record ''Ada''), None], JBool True, JStr ''c1'')]"
  note t = pagination_terminates_and_collects [where responses = "[Json ?r1, Json ?r2, Json ?r3]"
      and prof_id = "''42''" and num_reviews = 2
      and responses' = "[Json ?p1, Json ?p2]" and probe = "Inr valid_school_page"
      and page_size = 1000 and cap = None
      and docs = "[?r1, ?r2, ?r3]" and pages = ?rpages
      and items = "[review_record ''42'' ''E'']" and keep_going = "JBool False"
      and end_cursor = "JStr ''c3''" and rest = "[]"
      and docs' = "[?p1, ?p2]" and pages' = ?ppages
      and outcomes = "[Some (teacher_record ''Grace'')]" and has_more = "JBool False"
      and end_cursor' = JNull and rest' = "[]"]
  have rl: "reviews_has_next_false (Json ?r3)"
    by (simp add: reviews_doc_def)
  have pl: "profs_has_next_false (Json ?p2)"
    by (simp add: profs_doc_def)
  have ry: "list_all2 (reviews_page_yields ''42'') [?r1, ?r2, ?r3]
      (?rpages @ [([review_record ''42'' ''E''], JBool False, JStr ''c3'')])"
    by (simp del: reviews_page_yields.simps add: reviews_doc_yields get_prof_reviews_node_review)
  have py: "list_all2 profs_page_yields [?p1, ?p2]
      (?ppages @ [([Some (teacher_record ''Grace'')], JBool False, JNull)])"
    by (simp del: profs_page_yields.simps
        add: profs_doc_yields get_profs_edge_teacher get_profs_edge_campus)
  from t rl have "get_prof_reviews [Json ?r1, Json ?r2, Json ?r3] ''42'' 2 \<noteq> None"
    by simp
  moreover from t pl have "get_profs (Inr valid_school_page) [Json ?p1, Json ?p2] 1000 None \<noteq> None"
    by simp
  moreover from t ry have "get_prof_reviews [Json ?r1, Json ?r2, Json ?r3] ''42'' 2
     = Some (\<lparr>task_data = map (review_record ''42'') [''A'', ''B'', ''C'', ''D'', ''E''],
               task_error = False\<rparr>,
             requests 2 [JStr [], JStr ''c1'', JStr ''c2''])"
    by simp
  moreover from t py valid_school_page_valid have
    "get_profs (Inr valid_school_page) [Json ?p1, Json ?p2] 1000 None
     = Some (Inr [teacher_record ''Ada'', teacher_record ''Grace''],
             requests 1000 [JStr [], JStr ''c1''])"
    by simp
  ultimately show ?thesis
    using rl pl by blast
qed

section \<open>A response that cannot be read\<close>

text \<open>
  C2, as claimed, asks that both paginators return an error flag with the items so far.
  \<^verbatim>\<open>get_profs\<close> returns a plain list: a run that stops on a document without the
  expected keys returns the very value that a run ending on a last page returns, so its
  caller sees no flag.
\<close>

theorem get_profs_returns_no_error_flag:
  "profs_malformed (Json (JObj []))
   \<and> map_option fst (get_profs (Inr valid_school_page)
         [Json (profs_doc [teacher ''Ada''] (JBool True) (JStr ''c1'')), Json (JObj [])] 1000 None)
     = Some (Inr [teacher_record ''Ada''])
   \<and> map_option fst (get_profs (Inr valid_school_page)
         [Json (profs_doc [teacher ''Ada''] (JBool False) (JStr ''c1''))] 1000 None)
     = Some (Inr [teacher_record ''Ada''])"
  by (simp del: school_valid.simps
      add: get_profs_def valid_school_page_valid profs_doc_def get_profs_edge_teacher
        get_profs_except_def)

text \<open>
  C2, amended. \<^verbatim>\<open>get_prof_reviews\<close>: when, after any number of pages that ask for
  more, the post raises, \<^verbatim>\<open>json()\<close> raises, or the document cannot be read (missing keys
  or any other exception of the \<^verbatim>\<open>try\<close> block), the run stops there: it sends no further
  request, and returns the records appended so far with the error flag set.
  \<^verbatim>\<open>get_profs\<close> (valid school, \<^verbatim>\<open>pages\<close> cap not reached): when the document lacks one
  of the keys that the \<^verbatim>\<open>try\<close> block reads (\<^verbatim>\<open>data\<close>, \<^verbatim>\<open>search\<close>, \<^verbatim>\<open>teachers\<close>,
  \<^verbatim>\<open>pageInfo\<close>, \<^verbatim>\<open>edges\<close>: each read from the dict that the keys before it lead to), or
  \<^verbatim>\<open>json()\<close> raises a \<^verbatim>\<open>json.JSONDecodeError\<close> that is not a \<^verbatim>\<open>RequestException\<close>, the
  run stops there, sends no further request, and returns the records appended so far as a
  plain list, without a flag. The keys read after the \<^verbatim>\<open>try\<close> block are not among these.
\<close>

theorem malformed_response_stops_run:
  "(list_all2 (reviews_page_yields prof_id) docs pages
       \<and> (\<forall>p\<in>set pages. truthy (fst (snd p)))
       \<and> reviews_page_fails prof_id bad items \<longrightarrow>
      get_prof_reviews (map Json docs @ bad # rest) prof_id num_reviews
        = Some (\<lparr>task_data = concat (map fst pages) @ items, task_error = True\<rparr>,
                requests (min 1000 num_reviews) (JStr [] # map (\<lambda>p. snd (snd p)) pages)))
   \<and> reviews_page_fails prof_id (PostRaises e) []
   \<and> reviews_page_fails prof_id (JsonRaises e) []
   \<and> (and_then (py_path rj [''data'', ''node'', ''ratings'', ''edges'']) py_iter = Inl e \<longrightarrow>
        reviews_page_fails prof_id (Json rj) [])
   \<and> (school_valid probe = Inr True
       \<and> list_all2 profs_page_yields docs' pages'
       \<and> (\<forall>p\<in>set pages'. truthy (fst (snd p)))
       \<and> (cap = None \<or> int (length pages') < the cap)
       \<and> profs_malformed bad' \<longrightarrow>
      get_profs probe (map Json docs' @ bad' # rest') page_size cap
        = Some (Inr (concat (map (\<lambda>p. appended (fst p)) pages')),
                requests page_size (JStr [] # map (\<lambda>p. snd (snd p)) pages')))
   \<and> profs_malformed (JsonRaises JSONDecodeError)
   \<and> (ks \<in> set [[''data''], [''data'', ''search''], [''data'', ''search'', ''teachers''],
                  [''data'', ''search'', ''teachers'', ''pageInfo''],
                  [''data'', ''search'', ''teachers'', ''edges'']]
       \<and> py_path j (butlast ks) = Inr v
       \<and> py_getitem v (last ks) = Inl KeyError \<longrightarrow>
      profs_malformed (Json j))"
proof (intro conjI impI)
  assume "list_all2 (reviews_page_yields prof_id) docs pages
       \<and> (\<forall>p\<in>set pages. truthy (fst (snd p)))
       \<and> reviews_page_fails prof_id bad items"
  then show "get_prof_reviews (map Json docs @ bad # rest) prof_id num_reviews
        = Some (\<lparr>task_data = concat (map fst pages) @ items, task_error = True\<rparr>,
                requests (min 1000 num_reviews) (JStr [] # map (\<lambda>p. snd (snd p)) pages))"
    using get_prof_reviews_pages_fail by blast
next
  assume "school_valid probe = Inr True
       \<and> list_all2 profs_page_yields docs' pages'
       \<and> (\<forall>p\<in>set pages'. truthy (fst (snd p)))
       \<and> (cap = None \<or> int (length pages') < the cap)
       \<and> profs_malformed bad'"
  then show "get_profs probe (map Json docs' @ bad' # rest') page_size cap
        = Some (Inr (concat (map (\<lambda>p. appended (fst p)) pages')),
                requests page_size (JStr [] # map (\<lambda>p. snd (snd p)) pages'))"
    using get_profs_pages_malformed by blast
next
  assume "and_then (py_path rj [''data'', ''node'', ''ratings'', ''edges'']) py_iter = Inl e"
  then show "reviews_page_fails prof_id (Json rj) []"
    by (simp del: py_path.simps)
next
  assume "ks \<in> set [[''data''], [''data'', ''search''], [''data'', ''search'', ''teachers''],
                  [''data'', ''search'', ''teachers'', ''pageInfo''],
                  [''data'', ''search'', ''teachers'', ''edges'']]
       \<and> py_path j (butlast ks) = Inr v
       \<and> py_getitem v (last ks) = Inl KeyError"
  then show "profs_malformed (Json j)"
    using profs_malformed_missing_key by blast
qed simp_all

theorem malformed_response_stops_run_witness:
  "reviews_page_fails ''42'' (JsonRaises RequestsJSONDecodeError) []
   \<and> get_prof_reviews
       [Json (reviews_doc [review ''A'', review ''B''] (JBool True) (JStr ''c1'')),
        JsonRaises RequestsJSONDecodeError,
        Json (reviews_doc [review ''E''] (JBool False) (JStr ''c3''))] ''42'' 2
     = Some (\<lparr>task_data = map (review_record ''42'') [''A'', ''B''], task_error = True\<rparr>,
             requests 2 [JStr [], JStr ''c1''])
   \<and> reviews_page_fails ''42'' (Json (JObj [])) []
   \<and> profs_malformed (Json (JObj []))
   \<and> get_profs (Inr valid_school_page)
       [Json (profs_doc [teacher ''Ada'', campus] (JBool True) (JStr ''c1'')),
        Json (JObj []),
        Json (profs_doc [teacher ''Grace''] (JBool False) JNull)] 1000 None
     = Some (Inr [teacher_record ''Ada''], requests 1000 [JStr [], JStr ''c1''])"
proof -
  let ?r1 = "reviews_doc [review ''A'', review ''B''] (JBool True) (JStr ''c1'')"
  let ?p1 = "profs_doc [teacher ''Ada'', campus] (JBool True) (JStr ''c1'')"
  let ?rpages = "[(map (review_record ''42'') [''A'', ''B''], JBool True, JStr ''c1'')]"
  let ?ppages = "[([Some (teacher_record ''Ada''), None], JBool True, JStr ''c1'')]"
  note t = malformed_response_stops_run [where prof_id = "''42''" and docs = "[?r1]"
      and pages = ?rpages and bad = "JsonRaises RequestsJSONDecodeError" and items = "[]"
      and rest = "[Json (reviews_doc [review ''E''] (JBool False) (JStr ''c3''))]"
      and num_reviews = 2 and e = RequestsJSONDecodeError and rj = "JObj []"
      and probe = "Inr valid_school_page" and docs' = "[?p1]" and pages' = ?ppages
      and cap = None and bad' = "Json (JObj [])"
      and rest' = "[Json (profs_doc [teacher ''Grace''] (JBool False) JNull)]"
      and page_size = 1000 and j = "JObj []" and ks = "[''data'']" and v = "JObj []"]
  have ry: "list_all2 (reviews_page_yields ''42'') [?r1] ?rpages"
    by (simp del: reviews_page_yields.simps add: reviews_doc_yields get_prof_reviews_node_review)
  have py: "list_all2 profs_page_yields [?p1] ?ppages"
    by (simp del: profs_page_yields.simps
        add: profs_doc_yields get_profs_edge_teacher get_profs_edge_campus)
  have rf: "reviews_page_fails ''42'' (JsonRaises RequestsJSONDecodeError) []"
    by simp
  have pm: "profs_malformed (Json (JObj []))"
    by simp
  have rm: "reviews_page_fails ''42'' (Json (JObj [])) []"
    by simp
  from t ry rf have "get_prof_reviews
       [Json ?r1, JsonRaises RequestsJSONDecodeError,
        Json (reviews_doc [review ''E''] (JBool False) (JStr ''c3''))] ''42'' 2
     = Some (\<lparr>task_data = map (review_record ''42'') [''A'', ''B''], task_error = True\<rparr>,
             requests 2 [JStr [], JStr ''c1''])"
    by simp
  moreover from t py pm valid_school_page_valid have
    "get_profs (Inr valid_school_page)
       [Json ?p1, Json (JObj []), Json (profs_doc [teacher ''Grace''] (JBool False) JNull)] 1000 None
     = Some (Inr [teacher_record ''Ada''], requests 1000 [JStr [], JStr ''c1''])"
    by simp
  ultimately show ?thesis
    using rf pm rm by blast
qed

section \<open>Failures among the units of a dispatch\<close>

text \<open>
  C1, as claimed, asks of every dispatch that the ids of the failing units are in a
  failed-id set. \<^verbatim>\<open>all_profs\<close> keeps none, it prints the exception and goes on: when the
  unit of school 1 times out it returns the very value it returns when school 1 has no
  professors.
\<close>

theorem failed_ids_not_kept_by_all_profs:
  "school_with_timeout 1 = Raised TimeoutError
   \<and> school_without_profs 1 = Returned []
   \<and> all_profs record_rows school_with_timeout 0 3 False = ([JObj [(''id'', JInt 0)], JObj [(''id'', JInt 2)]], None)
   \<and> all_profs record_rows school_without_profs 0 3 False = ([JObj [(''id'', JInt 0)], JObj [(''id'', JInt 2)]], None)"
  by (simp add: all_profs_def school_with_timeout_def school_without_profs_def upto_rec1)

text \<open>
  C1, amended. \<^verbatim>\<open>get_all_prof_reviews\<close>, given a hint for every id: the data are the
  data of the units that returned, in submission order, so they contain the data of every
  unit that succeeded; the errors are the ids of the failing units, in submission order,
  one entry per failing unit, all of them ids of the input; and this whatever the
  positions of the failing units. \<^verbatim>\<open>all_profs\<close>: the list it returns is the data of the
  units that returned, in submission order; a unit that raised or timed out adds nothing,
  and no id of it is kept.
\<close>

theorem partial_failure_containment:
  "(length prof_ids \<le> length prof_num_reviews \<longrightarrow>
      (\<exists>res. get_all_prof_reviews run prof_ids prof_num_reviews = Inr res
         \<and> coll_data res = concat (map returned_data (unit_outcomes run prof_ids prof_num_reviews))
         \<and> coll_errors res
             = map fst (filter (\<lambda>p. unit_failed (snd p))
                          (zip prof_ids (unit_outcomes run prof_ids prof_num_reviews)))
         \<and> set (coll_errors res) \<subseteq> set prof_ids
         \<and> length (coll_errors res)
             = length (filter unit_failed (unit_outcomes run prof_ids prof_num_reviews))
         \<and> (\<forall>out\<in>set (unit_outcomes run prof_ids prof_num_reviews).
               set (returned_data out) \<subseteq> set (coll_data res))))
   \<and> fst (all_profs data_frame run' start stop save)
       = concat (map (\<lambda>i. returned_profs (run' i)) [start..stop - 1])"
proof (intro conjI impI)
  assume len: "length prof_ids \<le> length prof_num_reviews"
  let ?outs = "unit_outcomes run prof_ids prof_num_reviews"
  let ?res = "\<lparr>coll_data = concat (map returned_data ?outs),
      coll_errors = map fst (filter (\<lambda>p. unit_failed (snd p)) (zip prof_ids ?outs))\<rparr>"
  have mf: "map fst (zip prof_ids prof_num_reviews) = prof_ids"
    using len by (simp add: map_fst_zip_take)
  have r: "get_all_prof_reviews run prof_ids prof_num_reviews = Inr ?res"
    using len
    by (simp add: get_all_prof_reviews_def get_all_prof_reviews_collect_eq
        outcomes_from_zip [OF len] mf)
  have s: "set (coll_errors ?res) \<subseteq> set prof_ids"
    by (auto dest: set_zip_leftD)
  have l: "length (coll_errors ?res) = length (filter unit_failed ?outs)"
    by (simp add: length_filter_zip_snd unit_outcomes_def)
  have d: "\<forall>out\<in>set ?outs. set (returned_data out) \<subseteq> set (coll_data ?res)"
    by auto
  from r s l d show "\<exists>res. get_all_prof_reviews run prof_ids prof_num_reviews = Inr res
         \<and> coll_data res = concat (map returned_data ?outs)
         \<and> coll_errors res = map fst (filter (\<lambda>p. unit_failed (snd p)) (zip prof_ids ?outs))
         \<and> set (coll_errors res) \<subseteq> set prof_ids
         \<and> length (coll_errors res) = length (filter unit_failed ?outs)
         \<and> (\<forall>out\<in>set ?outs. set (returned_data out) \<subseteq> set (coll_data res))"
    by (intro exI [of _ ?res] conjI) simp_all
next
  show "fst (all_profs data_frame run' start stop save)
       = concat (map (\<lambda>i. returned_profs (run' i)) [start..stop - 1])"
    by (simp add: all_profs_def all_profs_collect_eq Let_def)
qed

theorem partial_failure_containment_witness:
  "get_all_prof_reviews third_times_out [''p1'', ''p2'', ''p3'', ''p4'', ''p5''] [7, 7, 7, 7, 7]
     = Inr \<lparr>coll_data = map (\<lambda>pid. review_record pid ''A'') [''p1'', ''p2'', ''p4'', ''p5''],
            coll_errors = [''p3'']\<rparr>
   \<and> fst (all_profs record_rows school_with_timeout 0 3 False)
     = [JObj [(''id'', JInt 0)], JObj [(''id'', JInt 2)]]"
proof -
  let ?ids = "[''p1'', ''p2'', ''p3'', ''p4'', ''p5'']"
  let ?nums = "[7, 7, 7, 7, 7 :: int]"
  note t = partial_failure_containment [where prof_ids = ?ids and prof_num_reviews = ?nums
      and run = third_times_out and run' = school_with_timeout and start = 0 and stop = 3
      and save = False and data_frame = record_rows]
  have outs: "unit_outcomes third_times_out ?ids ?nums
      = [Returned \<lparr>task_data = [review_record ''p1'' ''A''], task_error = False\<rparr>,
         Returned \<lparr>task_data = [review_record ''p2'' ''A''], task_error = False\<rparr>,
         Raised TimeoutError,
         Returned \<lparr>task_data = [review_record ''p4'' ''A''], task_error = False\<rparr>,
         Returned \<lparr>task_data = [review_record ''p5'' ''A''], task_error = False\<rparr>]"
    by (simp add: unit_outcomes_def third_times_out_def upt_rec)
  from t obtain res where res: "get_all_prof_reviews third_times_out ?ids ?nums = Inr res"
    "coll_data res = concat (map returned_data (unit_outcomes third_times_out ?ids ?nums))"
    "coll_errors res = map fst (filter (\<lambda>p. unit_failed (snd p))
         (zip ?ids (unit_outcomes third_times_out ?ids ?nums)))"
    by auto
  from res(2,3) have "res = \<lparr>coll_data = map (\<lambda>pid. review_record pid ''A'') [''p1'', ''p2'', ''p4'', ''p5''],
            coll_errors = [''p3'']\<rparr>"
    unfolding outs by (cases res) simp
  moreover from t have "fst (all_profs record_rows school_with_timeout 0 3 False)
     = [JObj [(''id'', JInt 0)], JObj [(''id'', JInt 2)]]"
    by (simp add: school_with_timeout_def upto_rec1)
  ultimately show ?thesis
    using res(1) by simp
qed

section \<open>Batches\<close>

text \<open>
  C4. Let the outcome of a unit depend on its id and hint only, not on the batch it runs
  in nor on its position there (no transient failure). Then for every batch size \<open>B\<close>, a
  size of batches being at least 1, below the number \<open>M\<close> of ids, \<^verbatim>\<open>all_prof_reviews\<close> over
  the windows of \<open>B\<close> ids ends, and returns and writes the same as with the whole list as
  one batch of size \<open>M\<close>: the errors of all units in order, and \<^verbatim>\<open>unique()\<close>, applied once
  at the end and not per batch, of the rows of the data of all units together. (Both runs
  raise \<open>IndexError\<close> when the hints are fewer than the ids.)
\<close>

theorem batch_equivalence:
  "(\<forall>batch i. run batch i = unit) \<and> 0 < batch_size \<and> batch_size < int (length prof_ids) \<longrightarrow>
     all_prof_reviews data_frame run prof_ids prof_num_reviews batch_size
       = all_prof_reviews data_frame run prof_ids prof_num_reviews (int (length prof_ids))
     \<and> all_prof_reviews data_frame run prof_ids prof_num_reviews batch_size
       = Some (if length prof_num_reviews < length prof_ids then Inl IndexError
               else Inr (work_errors unit (zip prof_ids prof_num_reviews),
                         unique (data_frame (work_data unit (zip prof_ids prof_num_reviews)))))"
proof (intro impI)
  assume a: "(\<forall>batch i. run batch i = unit) \<and> 0 < batch_size \<and> batch_size < int (length prof_ids)"
  then have run: "run = (\<lambda>batch i. unit)"
    by (intro ext) simp
  from a have B: "0 < batch_size" and M: "0 < int (length prof_ids)"
    by auto
  show "all_prof_reviews data_frame run prof_ids prof_num_reviews batch_size
       = all_prof_reviews data_frame run prof_ids prof_num_reviews (int (length prof_ids))
     \<and> all_prof_reviews data_frame run prof_ids prof_num_reviews batch_size
       = Some (if length prof_num_reviews < length prof_ids then Inl IndexError
               else Inr (work_errors unit (zip prof_ids prof_num_reviews),
                         unique (data_frame (work_data unit (zip prof_ids prof_num_reviews)))))"
    unfolding run all_prof_reviews_const [OF B] all_prof_reviews_const [OF M] by simp
qed

theorem batch_equivalence_witness:
  "all_prof_reviews record_rows steady_run [''p1'', ''p2'', ''p3'', ''p4'', ''p5''] [7, 7, 7, 7, 7] 2
     = Some (Inr ([''p3''], map (\<lambda>pid. review_record pid ''A'') [''p1'', ''p2'', ''p4'', ''p5'']))
   \<and> all_prof_reviews record_rows steady_run [''p1'', ''p2'', ''p3'', ''p4'', ''p5''] [7, 7, 7, 7, 7] 5
     = Some (Inr ([''p3''], map (\<lambda>pid. review_record pid ''A'') [''p1'', ''p2'', ''p4'', ''p5'']))"
proof -
  let ?ids = "[''p1'', ''p2'', ''p3'', ''p4'', ''p5'']"
  let ?nums = "[7, 7, 7, 7, 7 :: int]"
  have h: "(\<forall>batch i. steady_run batch i = p3_times_out) \<and> (0 :: int) < 2 \<and> 2 < int (length ?ids)"
    by (simp add: steady_run_def)
  have e: "work_errors p3_times_out (zip ?ids ?nums) = [''p3'']"
    by (simp add: work_errors_def p3_times_out_def)
  have d: "unique (record_rows (work_data p3_times_out (zip ?ids ?nums)))
      = map (\<lambda>pid. review_record pid ''A'') [''p1'', ''p2'', ''p4'', ''p5'']"
    by (simp add: work_data_def p3_times_out_def review_record_def record_rows_def)
  from batch_equivalence [of steady_run p3_times_out 2 ?ids record_rows ?nums] h
  have 1: "all_prof_reviews record_rows steady_run ?ids ?nums 2
      = all_prof_reviews record_rows steady_run ?ids ?nums (int (length ?ids))"
    and 2: "all_prof_reviews record_rows steady_run ?ids ?nums 2
      = Some (if length ?nums < length ?ids then Inl IndexError
              else Inr (work_errors p3_times_out (zip ?ids ?nums),
                        unique (record_rows (work_data p3_times_out (zip ?ids ?nums)))))"
    by blast+
  from 2 have 3: "all_prof_reviews record_rows steady_run ?ids ?nums 2
      = Some (Inr ([''p3''], map (\<lambda>pid. review_record pid ''A'') [''p1'', ''p2'', ''p4'', ''p5'']))"
    unfolding e d by simp
  have "int (length ?ids) = 5"
    by simp
  with 1 have "all_prof_reviews record_rows steady_run ?ids ?nums 5 = all_prof_reviews record_rows steady_run ?ids ?nums 2"
    by (simp only:)
  with 3 show ?thesis
    by (simp only:)
qed

end
